theory Spec2Isabelle
  imports Complex_Main "HOL-Library.Word" "HOL-Library.Log_Nat"
begin

section \<open>Data model (types.ts)\<close>

text \<open>
  A Node \<open>Buffer\<close> is a list of bytes.  The hex strings of the source
  (\<open>scriptPubKey\<close>, the items of \<open>witness\<close>) are represented by the bytes that
  \<open>Buffer.from(s, 'hex')\<close> yields, so the length of a witness stack is still the number
  of its items.  A JavaScript \<open>number\<close> that counts (an array length, a loop counter)
  is a \<open>nat\<close>, a satoshi value is an \<open>int\<close>, and a score, confidence or threshold is
  a \<open>number\<close>, the double-precision values defined below.  The one product
  \<open>pubkeyCount * 0.5\<close> and its comparison are taken in the rationals: halving a count
  and comparing two such values are exact in doubles.
\<close>

type_synonym byte = "8 word"
type_synonym buffer = "byte list"

subsection \<open>JavaScript numbers\<close>

text \<open>
  A \<open>number\<close> is an IEEE 754 binary64 value: \<open>NaN\<close>, an infinity, or a finite value,
  kept as the rational it denotes.  The two zeros are one value \<open>Fin 0\<close>: no comparison
  or sum of the source tells them apart.  An operation on finite values computes the exact
  rational result and rounds it with \<open>round64\<close>, to the nearest value of 53 significant
  bits, ties to the even significand, with the exponent range of binary64 (results below
  \<open>2^-1022\<close> are rounded to a multiple of \<open>2^-1074\<close>, results that round to \<open>2^1024\<close> or
  more become an infinity).  Every operation yields a double; a \<open>Fin r\<close> given from
  outside (a threshold, the score of a filter) is a double when \<open>r\<close> is one, and the
  theorems hold for every \<open>r\<close>.
\<close>

datatype number = NaN | PosInf | NegInf | Fin rat

text \<open>The exponent \<open>e\<close> with \<open>2^e \<le> x < 2^(e+1)\<close>, for a positive \<open>x\<close>.\<close>

definition ilog2 :: "rat \<Rightarrow> int" where
  "ilog2 x =
     (let (p, q) = quotient_of x;
          k = bitlen p - bitlen q
      in if 2 powi k \<le> x then k else k - 1)"

definition roundHalfEven :: "rat \<Rightarrow> int" where
  "roundHalfEven y =
     (let f = \<lfloor>y\<rfloor>;
          d = y - of_int f
      in if d < 1 / 2 then f
         else if d > 1 / 2 then f + 1
         else if even f then f else f + 1)"

definition round64 :: "rat \<Rightarrow> number" where
  "round64 x =
     (if x = 0 then Fin 0
      else
        (let a = \<bar>x\<bar>;
             e = ilog2 a;
             u = max (e - 52) (- 1074);
             m = roundHalfEven (a / 2 powi u);
             v = of_int m * 2 powi u
         in if v \<ge> 2 powi 1024 then (if x > 0 then PosInf else NegInf)
            else Fin (if x > 0 then v else - v)))"

text \<open>\<open>a + b\<close>, \<open>a * b\<close> and \<open>a / b\<close>.\<close>

fun addD :: "number \<Rightarrow> number \<Rightarrow> number" where
  "addD NaN b = NaN"
| "addD a NaN = NaN"
| "addD PosInf NegInf = NaN"
| "addD NegInf PosInf = NaN"
| "addD PosInf b = PosInf"
| "addD a PosInf = PosInf"
| "addD NegInf b = NegInf"
| "addD a NegInf = NegInf"
| "addD (Fin a) (Fin b) = round64 (a + b)"

fun mulD :: "number \<Rightarrow> number \<Rightarrow> number" where
  "mulD NaN b = NaN"
| "mulD a NaN = NaN"
| "mulD (Fin a) (Fin b) = round64 (a * b)"
| "mulD (Fin a) PosInf = (if a = 0 then NaN else if a > 0 then PosInf else NegInf)"
| "mulD (Fin a) NegInf = (if a = 0 then NaN else if a > 0 then NegInf else PosInf)"
| "mulD PosInf (Fin b) = (if b = 0 then NaN else if b > 0 then PosInf else NegInf)"
| "mulD NegInf (Fin b) = (if b = 0 then NaN else if b > 0 then NegInf else PosInf)"
| "mulD PosInf PosInf = PosInf"
| "mulD PosInf NegInf = NegInf"
| "mulD NegInf PosInf = NegInf"
| "mulD NegInf NegInf = PosInf"

text \<open>
  The one division of the source has a loop counter as divisor, never a negative zero;
  a zero divisor is taken as \<open>+0\<close>.
\<close>

fun divD :: "number \<Rightarrow> number \<Rightarrow> number" where
  "divD NaN b = NaN"
| "divD a NaN = NaN"
| "divD (Fin a) (Fin b) =
     (if b = 0 then (if a = 0 then NaN else if a > 0 then PosInf else NegInf)
      else round64 (a / b))"
| "divD (Fin a) PosInf = Fin 0"
| "divD (Fin a) NegInf = Fin 0"
| "divD PosInf (Fin b) = (if b \<ge> 0 then PosInf else NegInf)"
| "divD NegInf (Fin b) = (if b \<ge> 0 then NegInf else PosInf)"
| "divD PosInf PosInf = NaN"
| "divD PosInf NegInf = NaN"
| "divD NegInf PosInf = NaN"
| "divD NegInf NegInf = NaN"

text \<open>\<open>a >= b\<close> and \<open>a < b\<close>: both are false when an operand is \<open>NaN\<close>.\<close>

fun geD :: "number \<Rightarrow> number \<Rightarrow> bool" where
  "geD NaN b = False"
| "geD a NaN = False"
| "geD PosInf b = True"
| "geD a NegInf = True"
| "geD NegInf b = False"
| "geD a PosInf = False"
| "geD (Fin a) (Fin b) = (a \<ge> b)"

fun ltD :: "number \<Rightarrow> number \<Rightarrow> bool" where
  "ltD NaN b = False"
| "ltD a NaN = False"
| "ltD PosInf b = False"
| "ltD a NegInf = False"
| "ltD NegInf b = True"
| "ltD a PosInf = True"
| "ltD (Fin a) (Fin b) = (a < b)"

text \<open>A loop counter or array length as a number: exact, being below \<open>2^53\<close>.\<close>

definition ofCount :: "nat \<Rightarrow> number" where
  "ofCount n = Fin (of_nat n)"

subsection \<open>The interfaces of types.ts\<close>

record TransactionInput =
  txid :: string
  vout :: nat
  scriptSig :: "buffer option"
  witness :: "buffer list option"
  sequence :: nat

record TransactionOutput =
  out_value :: int
  scriptPubKey :: buffer
  scriptPubKeyType :: "string option"

record ParsedTransaction =
  tx_txid :: string
  version :: int
  locktime :: nat
  inputs :: "TransactionInput list"
  outputs :: "TransactionOutput list"
  weight :: nat
  tx_size :: nat
  vsize :: nat

text \<open>The result of \<open>analyzeWitnessScript\<close>.\<close>

record Analysis =
  isSuspicious :: bool
  pubkeyCount :: nat
  fakePubkeyCount :: nat
  hasCheckmultisig :: bool
  scriptSize :: nat

text \<open>
  The \<open>details\<close> object of a detection: the list the P2WSH detector pushes to, the
  object the OP_RETURN detector assigns fields of (an absent field is \<open>None\<close>), or the
  size object of the oversize rule.
\<close>

record OpReturnDetails =
  magicPrefix :: "bool option"
  chunkIndex :: "byte option"
  totalChunks :: "byte option"
  hasContinuationOutput :: "bool option"

datatype details =
    P2WSHDetails "(string \<times> nat \<times> Analysis) list"
  | ChainDetails OpReturnDetails
  | SizeDetails nat

text \<open>
  Message texts are kept as their template and its arguments: one constructor for each
  string literal or template of the source (\<open>HighWitness n\<close> is the template
  \<open>Detected n inputs with excessive witness data (>10 items)\<close> of the example filter).
\<close>

datatype message =
    Rejected number number
  | Accepted number number
  | HighWitness nat
  | Text string

datatype reason =
    NoSuspiciousP2WSH
  | DetectedP2WSH nat
  | NoOpReturnOutputs
  | MagicPrefixReason
  | ChainPatternReason
  | OversizeReason nat
  | NoSuspiciousOpReturn
  | CallbackMessage message

record DetectionResult =
  detected :: bool
  confidence :: number
  reason :: reason
  details :: "details option"

record FilterResult =
  accept :: bool
  score :: number
  detections :: "DetectionResult list"
  message :: message

record FilterConfig =
  threshold :: number
  enableP2WSHDetection :: bool
  enableOpReturnDetection :: bool
  customFilters :: "string list option"

section \<open>TransactionParser (parser.ts)\<close>

text \<open>\<open>Buffer.slice(start, end)\<close> for \<open>0 \<le> start \<le> end\<close>: both ends are clamped.\<close>

definition slice :: "buffer \<Rightarrow> nat \<Rightarrow> nat \<Rightarrow> buffer" where
  "slice b start stop = take (stop - start) (drop start b)"

text \<open>
  \<open>extractWitnessScript\<close>: \<open>null\<close> for an absent or empty stack, else the last item.
\<close>

definition extractWitnessScript :: "buffer list option \<Rightarrow> buffer option" where
  "extractWitnessScript w =
     (case w of
        None \<Rightarrow> None
      | Some items \<Rightarrow>
          if length items = 0 then None
          else Some (items ! (length items - 1)))"

text \<open>
  \<open>extractOpReturnData\<close>: the number of header bytes skipped after the \<open>0x6a\<close>
  depends on the byte at offset 1 only; the rest of the script is returned.
\<close>

definition extractOpReturnData :: "buffer \<Rightarrow> buffer option" where
  "extractOpReturnData script =
     (if length script = 0 \<or> script ! 0 \<noteq> 0x6a then None
      else if 1 \<ge> length script then Some []
      else
        (let pushOpcode = script ! 1;
             offset =
               (if 0x01 \<le> pushOpcode \<and> pushOpcode \<le> 0x4b then 1 + 1
                else if pushOpcode = 0x4c then 1 + 2
                else if pushOpcode = 0x4d then 1 + 3
                else if pushOpcode = 0x4e then 1 + 5
                else 1)
         in Some (drop offset script)))"

text \<open>
  \<open>detectScriptType\<close>, which \<open>parseHex\<close> uses to tag an output.  A read past the
  end of a \<open>Buffer\<close> is \<open>undefined\<close> and equals no byte, so each comparison of
  \<open>script[1]\<close> is guarded by the length.
\<close>

definition detectScriptType :: "buffer \<Rightarrow> string" where
  "detectScriptType script =
     (if length script = 0 then ''empty''
      else if script ! 0 = 0x6a then ''nulldata''
      else if length script = 22 \<and> script ! 0 = 0x00 \<and> script ! 1 = 0x14
        then ''witness_v0_keyhash''
      else if length script = 34 \<and> script ! 0 = 0x00 \<and> script ! 1 = 0x20
        then ''witness_v0_scripthash''
      else if length script = 34 \<and> script ! 0 = 0x51 \<and> script ! 1 = 0x20
        then ''witness_v1_taproot''
      else if script ! 0 = 0x76 \<and> 1 < length script \<and> script ! 1 = 0xa9
        then ''pubkeyhash''
      else if script ! 0 = 0xa9 \<and> script ! (length script - 1) = 0x87
        then ''scripthash''
      else ''unknown'')"

section \<open>P2WSHFakeMultisigDetector (detectors/p2wsh-detector.ts)\<close>

text \<open>
  The first loop of \<open>isLikelyFakePubkey\<close>, over \<open>i = 0 .. data.length - 1\<close>, with
  the three counters as arguments; it returns \<open>(zeroCount, maxConsecutiveZeros)\<close>.
\<close>

function zeroLoop :: "buffer \<Rightarrow> nat \<Rightarrow> nat \<Rightarrow> nat \<Rightarrow> nat \<Rightarrow> nat \<times> nat" where
  "zeroLoop data i zeroCount consecutiveZeros maxConsecutiveZeros =
     (if i < length data then
        (if data ! i = 0 then
           zeroLoop data (i + 1) (zeroCount + 1) (consecutiveZeros + 1)
             (max maxConsecutiveZeros (consecutiveZeros + 1))
         else zeroLoop data (i + 1) zeroCount 0 maxConsecutiveZeros)
      else (zeroCount, maxConsecutiveZeros))"
  by pat_completeness auto
termination
  by (relation "measure (\<lambda>(data, i, _). length data - i)") auto

text \<open>
  The second loop, over \<open>i < data.length - 3\<close> (written \<open>i + 3 < length data\<close>, the
  same condition over the integers), counting the positions that start four equal bytes.
\<close>

function repeatLoop :: "buffer \<Rightarrow> nat \<Rightarrow> nat \<Rightarrow> nat" where
  "repeatLoop data i repeatingPatterns =
     (if i + 3 < length data then
        (if data ! i = data ! (i + 1) \<and> data ! i = data ! (i + 2) \<and> data ! i = data ! (i + 3)
         then repeatLoop data (i + 1) (repeatingPatterns + 1)
         else repeatLoop data (i + 1) repeatingPatterns)
      else repeatingPatterns)"
  by pat_completeness auto
termination
  by (relation "measure (\<lambda>(data, i, _). length data - i)") auto

definition isLikelyFakePubkey :: "buffer \<Rightarrow> bool" where
  "isLikelyFakePubkey pubkey =
     (if length pubkey \<noteq> 33 then False
      else if pubkey ! 0 \<noteq> 0x02 \<and> pubkey ! 0 \<noteq> 0x03 then False
      else
        (let data = drop 1 pubkey;
             (zeroCount, maxConsecutiveZeros) = zeroLoop data 0 0 0 0
         in if maxConsecutiveZeros > 4 \<or> zeroCount > 10 then True
            else repeatLoop data 0 0 > 2))"

text \<open>
  The \<open>while (i < script.length - 2)\<close> loop of \<open>analyzeWitnessScript\<close> (the condition
  is \<open>i + 2 < length script\<close> over the integers), returning the \<open>pubkeys\<close> array.
\<close>

function collectPubkeys :: "buffer \<Rightarrow> nat \<Rightarrow> buffer list \<Rightarrow> buffer list" where
  "collectPubkeys script i pubkeys =
     (if i + 2 < length script then
        (let opcode = script ! i in
         if opcode = 0x21 then
           collectPubkeys script (i + 34) (pubkeys @ [slice script (i + 1) (i + 34)])
         else if 0x51 \<le> opcode \<and> opcode \<le> 0x60 then collectPubkeys script (i + 1) pubkeys
         else if opcode = 0xae then pubkeys
         else collectPubkeys script (i + 1) pubkeys)
      else pubkeys)"
  by pat_completeness auto
termination
  by (relation "measure (\<lambda>(script, i, _). length script - i)") auto

text \<open>The \<open>for (const pubkey of pubkeys)\<close> loop, with \<open>fakePubkeyCount\<close> as argument.\<close>

fun countFake :: "buffer list \<Rightarrow> nat \<Rightarrow> nat" where
  "countFake [] fakeCount = fakeCount"
| "countFake (pubkey # rest) fakeCount =
     (if length pubkey = 33 then
        (if pubkey ! 0 = 0x02 \<or> pubkey ! 0 = 0x03 then
           (if isLikelyFakePubkey pubkey then countFake rest (fakeCount + 1)
            else countFake rest fakeCount)
         else countFake rest fakeCount)
      else countFake rest fakeCount)"

definition analyzeWitnessScript :: "buffer \<Rightarrow> Analysis" where
  "analyzeWitnessScript script =
     (let result = \<lparr> isSuspicious = False, pubkeyCount = 0, fakePubkeyCount = 0,
                      hasCheckmultisig = False, scriptSize = length script \<rparr>
      in if length script = 0 then result
         else
           (let lastByte = script ! (length script - 1);
                result = result \<lparr> hasCheckmultisig := (lastByte = 0xae) \<rparr>
            in if \<not> hasCheckmultisig result then result
               else
                 (let pubkeys = collectPubkeys script 1 [];
                      result = result \<lparr> pubkeyCount := length pubkeys \<rparr>;
                      result = result \<lparr> fakePubkeyCount := countFake pubkeys 0 \<rparr>;
                      result =
                        (if pubkeyCount result > 3 \<and>
                            (of_nat (fakePubkeyCount result) :: rat)
                              > of_nat (pubkeyCount result) * (1 / 2)
                         then result \<lparr> isSuspicious := True \<rparr> else result);
                      result =
                        (if pubkeyCount result > 10
                         then result \<lparr> isSuspicious := True \<rparr> else result)
                  in result)))"

text \<open>
  The loop of \<open>detect\<close> over the inputs, with \<open>suspiciousCount\<close>, \<open>totalP2WSH\<close>
  and \<open>details\<close> as arguments.
\<close>

fun scanInputs ::
  "TransactionInput list \<Rightarrow> nat \<Rightarrow> nat \<Rightarrow> (string \<times> nat \<times> Analysis) list
     \<Rightarrow> nat \<times> nat \<times> (string \<times> nat \<times> Analysis) list" where
  "scanInputs [] suspiciousCount totalP2WSH dets = (suspiciousCount, totalP2WSH, dets)"
| "scanInputs (input # rest) suspiciousCount totalP2WSH dets =
     (case witness input of
        None \<Rightarrow> scanInputs rest suspiciousCount totalP2WSH dets
      | Some items \<Rightarrow>
          if length items < 3 then scanInputs rest suspiciousCount totalP2WSH dets
          else
            (case extractWitnessScript (witness input) of
               None \<Rightarrow> scanInputs rest suspiciousCount totalP2WSH dets
             | Some witnessScript \<Rightarrow>
                 (let analysis = analyzeWitnessScript witnessScript in
                  if isSuspicious analysis then
                    scanInputs rest (suspiciousCount + 1) (totalP2WSH + 1)
                      (dets @ [(txid input, vout input, analysis)])
                  else scanInputs rest suspiciousCount (totalP2WSH + 1) dets)))"

definition P2WSH_detect :: "ParsedTransaction \<Rightarrow> DetectionResult" where
  "P2WSH_detect tx =
     (let (suspiciousCount, totalP2WSH, dets) = scanInputs (inputs tx) 0 0 []
      in if suspiciousCount = 0 then
           \<lparr> detected = False, confidence = Fin 0, reason = NoSuspiciousP2WSH,
             details = None \<rparr>
         else
           \<lparr> detected = True,
             confidence =
               (if totalP2WSH > 0
                then mulD (divD (ofCount suspiciousCount) (ofCount totalP2WSH)) (Fin 100)
                else Fin 0),
             reason = DetectedP2WSH suspiciousCount,
             details = Some (P2WSHDetails dets) \<rparr>)"

section \<open>ChainedOpReturnDetector (detectors/opreturn-detector.ts)\<close>

text \<open>
  The loop over \<open>opReturnOutputs\<close>, with \<open>hasMagicPrefix\<close> and the \<open>details\<close>
  object as arguments.  \<open>if (!data) continue\<close> skips a \<open>null\<close> only: an empty
  \<open>Buffer\<close> is an object and passes.
\<close>

fun scanOpReturns ::
  "TransactionOutput list \<Rightarrow> bool \<Rightarrow> OpReturnDetails \<Rightarrow> bool \<times> OpReturnDetails" where
  "scanOpReturns [] hasMagicPrefix dets = (hasMagicPrefix, dets)"
| "scanOpReturns (output # rest) hasMagicPrefix dets =
     (case extractOpReturnData (scriptPubKey output) of
        None \<Rightarrow> scanOpReturns rest hasMagicPrefix dets
      | Some data \<Rightarrow>
          if length data \<ge> 2 \<and> data ! 0 = 0x01 \<and> data ! 1 = 0xbc then
            (let dets = dets \<lparr> magicPrefix := Some True \<rparr>;
                 dets =
                   (if length data \<ge> 4
                    then dets \<lparr> chunkIndex := Some (data ! 2), totalChunks := Some (data ! 3) \<rparr>
                    else dets)
             in scanOpReturns rest True dets)
          else scanOpReturns rest hasMagicPrefix dets)"

text \<open>
  \<open>Math.max(...xs)\<close> on lengths.  It is called on a non-empty list only, where it is
  the largest element; the \<open>-Infinity\<close> of no arguments is never produced.
\<close>

definition Math_max :: "nat list \<Rightarrow> nat" where
  "Math_max xs = fold max xs 0"

definition noDetails :: OpReturnDetails where
  "noDetails = \<lparr> magicPrefix = None, chunkIndex = None, totalChunks = None,
                  hasContinuationOutput = None \<rparr>"

text \<open>
  The constant \<open>opReturnOutputs\<close> of \<open>detect\<close>: the outputs that pass the filter
  \<open>out.scriptPubKeyType === 'nulldata'\<close>.
\<close>

definition opReturnOutputs :: "ParsedTransaction \<Rightarrow> TransactionOutput list" where
  "opReturnOutputs tx =
     filter (\<lambda>out. scriptPubKeyType out = Some ''nulldata'') (outputs tx)"

definition OpReturn_detect :: "ParsedTransaction \<Rightarrow> DetectionResult" where
  "OpReturn_detect tx =
     (let opReturnOutputs = opReturnOutputs tx
      in if length opReturnOutputs = 0 then
           \<lparr> detected = False, confidence = Fin 0, reason = NoOpReturnOutputs, details = None \<rparr>
         else
           (let (hasMagicPrefix, dets) = scanOpReturns opReturnOutputs False noDetails;
                hasContinuation =
                  (length (outputs tx) \<ge> 2 \<and>
                   list_ex (\<lambda>out. out_value out > 0 \<and> out_value out < 15000) (outputs tx));
                (hasChainPattern, dets) =
                  (if hasContinuation \<and> length opReturnOutputs > 0
                   then (True, dets \<lparr> hasContinuationOutput := Some True \<rparr>)
                   else (False, dets))
            in if hasMagicPrefix \<or> hasChainPattern then
                 \<lparr> detected = True,
                   confidence = (if hasMagicPrefix then Fin 95 else Fin 60),
                   reason = (if hasMagicPrefix then MagicPrefixReason else ChainPatternReason),
                   details = Some (ChainDetails dets) \<rparr>
               else if length opReturnOutputs > 0 then
                 (let largestOpReturn =
                        Math_max (map (\<lambda>out. case extractOpReturnData (scriptPubKey out) of
                                                None \<Rightarrow> 0 | Some data \<Rightarrow> length data)
                                      opReturnOutputs)
                  in if largestOpReturn > 80 then
                       \<lparr> detected = True, confidence = Fin 40,
                         reason = OversizeReason largestOpReturn,
                         details = Some (SizeDetails largestOpReturn) \<rparr>
                     else
                       \<lparr> detected = False, confidence = Fin 0, reason = NoSuspiciousOpReturn,
                         details = None \<rparr>)
               else
                 \<lparr> detected = False, confidence = Fin 0, reason = NoSuspiciousOpReturn,
                   details = None \<rparr>))"

section \<open>FilterEngine (filter-engine.ts)\<close>

text \<open>
  A registered filter is a JavaScript function: it returns a \<open>FilterResult\<close> or throws.
\<close>

datatype exn = Exception string

type_synonym jsFilter = "ParsedTransaction \<Rightarrow> exn + FilterResult"

record FilterEngine =
  config :: FilterConfig
  jsFilters :: "jsFilter list"

definition newFilterEngine :: "FilterConfig \<Rightarrow> FilterEngine" where
  "newFilterEngine cfg = \<lparr> config = cfg, jsFilters = [] \<rparr>"

definition addJSFilter :: "FilterEngine \<Rightarrow> jsFilter \<Rightarrow> FilterEngine" where
  "addJSFilter e f = e \<lparr> jsFilters := jsFilters e @ [f] \<rparr>"

text \<open>
  The loop over \<open>this.jsFilters\<close>, with \<open>detections\<close> and \<open>totalScore\<close> as
  arguments.  The source has no handler around \<open>filter(tx)\<close>: an exception leaves the
  loop and the method.
\<close>

fun runFilters ::
  "jsFilter list \<Rightarrow> ParsedTransaction \<Rightarrow> DetectionResult list \<Rightarrow> number
     \<Rightarrow> exn + (DetectionResult list \<times> number)" where
  "runFilters [] tx dets totalScore = Inr (dets, totalScore)"
| "runFilters (f # rest) tx dets totalScore =
     (case f tx of
        Inl e \<Rightarrow> Inl e
      | Inr result \<Rightarrow>
          if \<not> accept result then
            runFilters rest tx
              (dets @ [\<lparr> detected = True, confidence = score result,
                         reason = CallbackMessage (message result), details = None \<rparr>])
              (addD totalScore (score result))
          else runFilters rest tx dets totalScore)"

definition evaluateTransaction :: "FilterEngine \<Rightarrow> ParsedTransaction \<Rightarrow> exn + FilterResult" where
  "evaluateTransaction e tx =
     (let (dets, totalScore) = ([], Fin 0);
          (dets, totalScore) =
            (if enableP2WSHDetection (config e) then
               (let p2wshResult = P2WSH_detect tx in
                if detected p2wshResult
                then (dets @ [p2wshResult], addD totalScore (confidence p2wshResult))
                else (dets, totalScore))
             else (dets, totalScore));
          (dets, totalScore) =
            (if enableOpReturnDetection (config e) then
               (let opReturnResult = OpReturn_detect tx in
                if detected opReturnResult
                then (dets @ [opReturnResult], addD totalScore (confidence opReturnResult))
                else (dets, totalScore))
             else (dets, totalScore))
      in case runFilters (jsFilters e) tx dets totalScore of
           Inl ex \<Rightarrow> Inl ex
         | Inr (dets, totalScore) \<Rightarrow>
             (let shouldReject = geD totalScore (threshold (config e)) in
              Inr \<lparr> accept = \<not> shouldReject,
                    score = totalScore,
                    detections = dets,
                    message =
                      (if shouldReject then Rejected totalScore (threshold (config e))
                       else Accepted totalScore (threshold (config e))) \<rparr>))"

section \<open>The decoders with every indexed read checked\<close>

text \<open>
  To state that no read leaves its buffer, the decoding routines are written a second
  time with each \<open>b[i]\<close> of the source going through \<open>rd\<close>, which reports a read
  outside \<open>0 .. length - 1\<close>.  The reads are made in the order and under the conditions
  of the source (\<open>&&\<close> and \<open>||\<close> evaluate their right operand only when needed).
  \<open>slice\<close> is not a read: \<open>Buffer.slice\<close> clamps.
\<close>

datatype fault = IndexOutOfRange

definition rd :: "'a list \<Rightarrow> nat \<Rightarrow> fault + 'a" where
  "rd xs i = (if i < length xs then Inr (xs ! i) else Inl IndexOutOfRange)"

definition andThen :: "fault + 'a \<Rightarrow> ('a \<Rightarrow> fault + 'b) \<Rightarrow> fault + 'b" where
  "andThen m f = (case m of Inl e \<Rightarrow> Inl e | Inr x \<Rightarrow> f x)"

definition extractWitnessScript_checked :: "buffer list option \<Rightarrow> fault + buffer option" where
  "extractWitnessScript_checked w =
     (case w of
        None \<Rightarrow> Inr None
      | Some items \<Rightarrow>
          if length items = 0 then Inr None
          else andThen (rd items (length items - 1)) (\<lambda>lastItem. Inr (Some lastItem)))"

definition extractOpReturnData_checked :: "buffer \<Rightarrow> fault + buffer option" where
  "extractOpReturnData_checked script =
     (if length script = 0 then Inr None
      else andThen (rd script 0) (\<lambda>b0.
        if b0 \<noteq> 0x6a then Inr None
        else if 1 \<ge> length script then Inr (Some [])
        else andThen (rd script 1) (\<lambda>pushOpcode.
          (let offset =
                 (if 0x01 \<le> pushOpcode \<and> pushOpcode \<le> 0x4b then 1 + 1
                  else if pushOpcode = 0x4c then 1 + 2
                  else if pushOpcode = 0x4d then 1 + 3
                  else if pushOpcode = 0x4e then 1 + 5
                  else 1)
           in Inr (Some (drop offset script))))))"

function zeroLoop_checked ::
  "buffer \<Rightarrow> nat \<Rightarrow> nat \<Rightarrow> nat \<Rightarrow> nat \<Rightarrow> fault + (nat \<times> nat)" where
  "zeroLoop_checked data i zeroCount consecutiveZeros maxConsecutiveZeros =
     (if i < length data then
        andThen (rd data i) (\<lambda>b.
          if b = 0 then
            zeroLoop_checked data (i + 1) (zeroCount + 1) (consecutiveZeros + 1)
              (max maxConsecutiveZeros (consecutiveZeros + 1))
          else zeroLoop_checked data (i + 1) zeroCount 0 maxConsecutiveZeros)
      else Inr (zeroCount, maxConsecutiveZeros))"
  by pat_completeness auto
termination
  by (relation "measure (\<lambda>(data, i, _). length data - i)") auto

function repeatLoop_checked :: "buffer \<Rightarrow> nat \<Rightarrow> nat \<Rightarrow> fault + nat" where
  "repeatLoop_checked data i repeatingPatterns =
     (if i + 3 < length data then
        andThen (rd data i) (\<lambda>a.
        andThen (rd data (i + 1)) (\<lambda>b.
          if a \<noteq> b then repeatLoop_checked data (i + 1) repeatingPatterns
          else
            andThen (rd data (i + 2)) (\<lambda>c.
              if a \<noteq> c then repeatLoop_checked data (i + 1) repeatingPatterns
              else
                andThen (rd data (i + 3)) (\<lambda>d.
                  if a \<noteq> d then repeatLoop_checked data (i + 1) repeatingPatterns
                  else repeatLoop_checked data (i + 1) (repeatingPatterns + 1)))))
      else Inr repeatingPatterns)"
  by pat_completeness auto
termination
  by (relation "measure (\<lambda>(data, i, _). length data - i)") auto

definition isLikelyFakePubkey_checked :: "buffer \<Rightarrow> fault + bool" where
  "isLikelyFakePubkey_checked pubkey =
     (if length pubkey \<noteq> 33 then Inr False
      else andThen (rd pubkey 0) (\<lambda>prefix.
        if prefix \<noteq> 0x02 \<and> prefix \<noteq> 0x03 then Inr False
        else
          (let data = drop 1 pubkey in
           andThen (zeroLoop_checked data 0 0 0 0) (\<lambda>(zeroCount, maxConsecutiveZeros).
             if maxConsecutiveZeros > 4 \<or> zeroCount > 10 then Inr True
             else andThen (repeatLoop_checked data 0 0) (\<lambda>repeatingPatterns.
                    Inr (repeatingPatterns > 2))))))"

function collectPubkeys_checked ::
  "buffer \<Rightarrow> nat \<Rightarrow> buffer list \<Rightarrow> fault + buffer list" where
  "collectPubkeys_checked script i pubkeys =
     (if i + 2 < length script then
        andThen (rd script i) (\<lambda>opcode.
          if opcode = 0x21 then
            collectPubkeys_checked script (i + 34) (pubkeys @ [slice script (i + 1) (i + 34)])
          else if 0x51 \<le> opcode \<and> opcode \<le> 0x60 then
            collectPubkeys_checked script (i + 1) pubkeys
          else if opcode = 0xae then Inr pubkeys
          else collectPubkeys_checked script (i + 1) pubkeys)
      else Inr pubkeys)"
  by pat_completeness auto
termination
  by (relation "measure (\<lambda>(script, i, _). length script - i)") auto

fun countFake_checked :: "buffer list \<Rightarrow> nat \<Rightarrow> fault + nat" where
  "countFake_checked [] fakeCount = Inr fakeCount"
| "countFake_checked (pubkey # rest) fakeCount =
     (if length pubkey = 33 then
        andThen (rd pubkey 0) (\<lambda>prefix.
          if prefix = 0x02 \<or> prefix = 0x03 then
            andThen (isLikelyFakePubkey_checked pubkey) (\<lambda>isLikelyFake.
              if isLikelyFake then countFake_checked rest (fakeCount + 1)
              else countFake_checked rest fakeCount)
          else countFake_checked rest fakeCount)
      else countFake_checked rest fakeCount)"

definition analyzeWitnessScript_checked :: "buffer \<Rightarrow> fault + Analysis" where
  "analyzeWitnessScript_checked script =
     (let result = \<lparr> isSuspicious = False, pubkeyCount = 0, fakePubkeyCount = 0,
                      hasCheckmultisig = False, scriptSize = length script \<rparr>
      in if length script = 0 then Inr result
         else
           andThen (rd script (length script - 1)) (\<lambda>lastByte.
             (let result = result \<lparr> hasCheckmultisig := (lastByte = 0xae) \<rparr>
              in if \<not> hasCheckmultisig result then Inr result
                 else
                   andThen (collectPubkeys_checked script 1 []) (\<lambda>pubkeys.
                   andThen (countFake_checked pubkeys 0) (\<lambda>fakeCount.
                     (let result = result \<lparr> pubkeyCount := length pubkeys \<rparr>;
                          result = result \<lparr> fakePubkeyCount := fakeCount \<rparr>;
                          result =
                            (if pubkeyCount result > 3 \<and>
                                (of_nat (fakePubkeyCount result) :: rat)
                                  > of_nat (pubkeyCount result) * (1 / 2)
                             then result \<lparr> isSuspicious := True \<rparr> else result);
                          result =
                            (if pubkeyCount result > 10
                             then result \<lparr> isSuspicious := True \<rparr> else result)
                      in Inr result))))))"

section \<open>What the heuristics are said to compute\<close>

text \<open>
  The quantities of the fake-pubkey heuristic, stated without the loops: a run of \<open>n\<close>
  consecutive zero bytes, the longest such run, the number of zero bytes, and the number of
  window positions at which four consecutive bytes are identical.
\<close>

definition hasZeroRun :: "buffer \<Rightarrow> nat \<Rightarrow> bool" where
  "hasZeroRun data n = (\<exists>i. i + n \<le> length data \<and> (\<forall>j<n. data ! (i + j) = 0))"

definition spec_longestZeroRun :: "buffer \<Rightarrow> nat" where
  "spec_longestZeroRun data = Max {n. hasZeroRun data n}"

definition spec_zeroCount :: "buffer \<Rightarrow> nat" where
  "spec_zeroCount data = length (filter (\<lambda>b. b = 0) data)"

definition spec_repeatedRuns :: "buffer \<Rightarrow> nat" where
  "spec_repeatedRuns data =
     card {i. i + 3 < length data \<and>
              data ! (i + 1) = data ! i \<and> data ! (i + 2) = data ! i \<and> data ! (i + 3) = data ! i}"

text \<open>
  The same longest run by recursion on the bytes (used to relate the loop to it): the zero
  bytes at the front of a sequence, and the maximum of that over all its suffixes.
\<close>

fun leadingZeros :: "buffer \<Rightarrow> nat" where
  "leadingZeros [] = 0"
| "leadingZeros (b # bs) = (if b = 0 then Suc (leadingZeros bs) else 0)"

fun longestZeroRun :: "buffer \<Rightarrow> nat" where
  "longestZeroRun [] = 0"
| "longestZeroRun (b # bs) = max (leadingZeros (b # bs)) (longestZeroRun bs)"

text \<open>The window positions from index \<open>i\<close> on.\<close>

definition windowsFrom :: "buffer \<Rightarrow> nat \<Rightarrow> nat set" where
  "windowsFrom data i =
     {j. i \<le> j \<and> j + 3 < length data \<and>
         data ! (j + 1) = data ! j \<and> data ! (j + 2) = data ! j \<and> data ! (j + 3) = data ! j}"

text \<open>
  The condition under which the loop over \<open>pubkeys\<close> increments \<open>fakePubkeyCount\<close>.
\<close>

definition countedFake :: "buffer \<Rightarrow> bool" where
  "countedFake pk = (length pk = 33 \<and> (pk ! 0 = 0x02 \<or> pk ! 0 = 0x03) \<and> isLikelyFakePubkey pk)"

text \<open>
  The witness script of the test suite (\<open>createMockP2WSHSpamTransaction\<close>): twelve pushes
  of \<open>02 00..00\<close>.  A script of three such pushes.  A script whose eleventh push is cut
  short by the end of the script.
\<close>

definition spamScript :: buffer where
  "spamScript = [0x01, 0x51] @ concat (replicate 12 (0x21 # 0x02 # replicate 32 0x00)) @ [0x5c, 0xae]"

definition threeFakeScript :: buffer where
  "threeFakeScript = [0x52] @ concat (replicate 3 (0x21 # 0x02 # replicate 32 0x00)) @ [0x53, 0xae]"

definition truncatedScript :: buffer where
  "truncatedScript =
     [0x5b] @ concat (replicate 10 (0x21 # 0x04 # replicate 32 0x11)) @ [0x21, 0x02, 0x5b, 0xae]"

section \<open>What the OP_RETURN detector is said to compute\<close>


text \<open>
  The three patterns of the detector, stated on the transaction: some collected output
  has a payload that starts with \<open>01 bc\<close>; some output of the transaction has a value
  strictly between 0 and 15000; some collected output has a payload of more than 80 bytes.
\<close>

definition isMagic :: "buffer \<Rightarrow> bool" where
  "isMagic data = (length data \<ge> 2 \<and> data ! 0 = 0x01 \<and> data ! 1 = 0xbc)"

definition magicPayloads :: "TransactionOutput list \<Rightarrow> buffer list" where
  "magicPayloads outs =
     concat (map (\<lambda>out. case extractOpReturnData (scriptPubKey out) of
                           None \<Rightarrow> []
                         | Some data \<Rightarrow> if isMagic data then [data] else []) outs)"

definition spec_hasMagicPrefix :: "ParsedTransaction \<Rightarrow> bool" where
  "spec_hasMagicPrefix tx = (magicPayloads (opReturnOutputs tx) \<noteq> [])"

definition spec_smallValueOutput :: "ParsedTransaction \<Rightarrow> bool" where
  "spec_smallValueOutput tx =
     (\<exists>out \<in> set (outputs tx). 0 < out_value out \<and> out_value out < 15000)"

definition spec_oversize :: "ParsedTransaction \<Rightarrow> bool" where
  "spec_oversize tx =
     (\<exists>out \<in> set (opReturnOutputs tx). \<exists>data.
        extractOpReturnData (scriptPubKey out) = Some data \<and> length data > 80)"

text \<open>
  The chunk fields: bytes 3 and 4 of the last payload with the magic prefix that has at
  least 4 bytes, if there is one.
\<close>

definition spec_chunk :: "ParsedTransaction \<Rightarrow> nat \<Rightarrow> byte option" where
  "spec_chunk tx k =
     (case filter (\<lambda>data. length data \<ge> 4) (magicPayloads (opReturnOutputs tx)) of
        [] \<Rightarrow> None
      | d # ds \<Rightarrow> Some (last (d # ds) ! k))"

text \<open>Example transactions.\<close>

definition mkOutput :: "int \<Rightarrow> buffer \<Rightarrow> string option \<Rightarrow> TransactionOutput" where
  "mkOutput v script tag = \<lparr> out_value = v, scriptPubKey = script, scriptPubKeyType = tag \<rparr>"

definition mkInput :: "buffer list option \<Rightarrow> TransactionInput" where
  "mkInput w = \<lparr> txid = ''aa'', vout = 0, scriptSig = None, witness = w,
                 sequence = 4294967295 \<rparr>"

definition mkTx :: "TransactionInput list \<Rightarrow> TransactionOutput list \<Rightarrow> ParsedTransaction" where
  "mkTx ins outs = \<lparr> tx_txid = ''test'', version = 2, locktime = 0, inputs = ins,
                      outputs = outs, weight = 400, tx_size = 200, vsize = 100 \<rparr>"

definition singleOpReturnTx :: ParsedTransaction where
  "singleOpReturnTx = mkTx [mkInput None] [mkOutput 5000 [0x6a] (Some ''nulldata'')]"

definition untaggedOpReturnTx :: ParsedTransaction where
  "untaggedOpReturnTx =
     mkTx [mkInput None] [mkOutput 0 [0x6a, 0x04, 0x01, 0xbc, 0x00, 0x0a] None]"

definition magicTx :: ParsedTransaction where
  "magicTx =
     mkTx [mkInput None]
       [mkOutput 0 [0x6a, 0x04, 0x01, 0xbc, 0x00, 0x0a] (Some ''nulldata''),
        mkOutput 9000 [0x00, 0x14] (Some ''witness_v0_keyhash'')]"

definition continuationTx :: ParsedTransaction where
  "continuationTx =
     mkTx [mkInput None]
       [mkOutput 0 ([0x6a, 0x4c, 0x64] @ replicate 100 0x41) (Some ''nulldata''),
        mkOutput 5000 [0x00, 0x14] (Some ''witness_v0_keyhash'')]"

definition oversizeTx :: ParsedTransaction where
  "oversizeTx =
     mkTx [mkInput None]
       [mkOutput 0 ([0x6a, 0x4c, 0x64] @ replicate 100 0x41) (Some ''nulldata'')]"

section \<open>What the P2WSH detector and the engine are said to compute\<close>

text \<open>
  The inputs the P2WSH detector counts in \<open>totalP2WSH\<close> (a witness stack of at least 3
  items), their last witness item, and the counted inputs whose last item the analysis
  finds suspicious.
\<close>

definition hasThreeItems :: "TransactionInput \<Rightarrow> bool" where
  "hasThreeItems input =
     (case witness input of None \<Rightarrow> False | Some items \<Rightarrow> length items \<ge> 3)"

definition lastWitnessItem :: "TransactionInput \<Rightarrow> buffer" where
  "lastWitnessItem input =
     (case witness input of
        None \<Rightarrow> []
      | Some items \<Rightarrow> if items = [] then [] else last items)"

definition countedInputs :: "ParsedTransaction \<Rightarrow> TransactionInput list" where
  "countedInputs tx = filter hasThreeItems (inputs tx)"

definition suspiciousInputs :: "ParsedTransaction \<Rightarrow> TransactionInput list" where
  "suspiciousInputs tx =
     filter (\<lambda>input. isSuspicious (analyzeWitnessScript (lastWitnessItem input)))
       (countedInputs tx)"



text \<open>
  The confidence as the source computes it from the two counts: the quotient, rounded to a
  double, times 100, rounded to a double.
\<close>

definition doubleConfidence :: "nat \<Rightarrow> nat \<Rightarrow> number" where
  "doubleConfidence s t = mulD (divD (ofCount s) (ofCount t)) (Fin 100)"

text \<open>
  Transactions whose inputs have three witness items each.  Of eight inputs, the last item
  is the spam script of the test suite for one, the single byte \<open>00\<close> for another, and
  the script \<open>51 ae\<close> for the other six.  Of three inputs, it is the spam script for one
  and \<open>51 ae\<close> for two.  Of fifty inputs, it is the spam script for 29 and \<open>51 ae\<close>
  for 21.
\<close>

definition spamInput :: TransactionInput where
  "spamInput = mkInput (Some [[0x00], [0x00], spamScript])"

definition cleanInput :: TransactionInput where
  "cleanInput = mkInput (Some [[0x00], [0x00], [0x51, 0xae]])"



definition fiftyInputTx :: ParsedTransaction where
  "fiftyInputTx =
     mkTx (replicate 29 spamInput @ replicate 21 cleanInput)
          [mkOutput 1000 [0x00, 0x20] (Some ''witness_v0_scripthash'')]"

text \<open>
  The detection the engine pushes for a filter result that does not accept; the detections
  of the enabled detectors that detected; and the total score as the specification words
  it: the sum, taken from 0 in the order of invocation, of the confidences of the enabled
  detectors that detected and of the scores of the filter results that do not accept.
\<close>

definition wrapCallback :: "FilterResult \<Rightarrow> DetectionResult" where
  "wrapCallback result =
     \<lparr> detected = True, confidence = score result,
       reason = CallbackMessage (message result), details = None \<rparr>"

definition builtinDetections :: "FilterConfig \<Rightarrow> ParsedTransaction \<Rightarrow> DetectionResult list" where
  "builtinDetections cfg tx =
     (if enableP2WSHDetection cfg \<and> detected (P2WSH_detect tx) then [P2WSH_detect tx] else []) @
     (if enableOpReturnDetection cfg \<and> detected (OpReturn_detect tx)
      then [OpReturn_detect tx] else [])"

definition spec_totalScore :: "FilterConfig \<Rightarrow> FilterResult list \<Rightarrow> ParsedTransaction \<Rightarrow> number" where
  "spec_totalScore cfg results tx =
     foldl addD (Fin 0)
       (map confidence (builtinDetections cfg tx) @
        map score (filter (\<lambda>r. \<not> accept r) results))"

text \<open>
  Example engines and filters: the configuration of the test suite, the same with the
  threshold \<open>NaN\<close> (what \<open>parseFloat\<close> makes of a \<open>--threshold\<close> that is no number)
  and with the threshold 58, a filter that throws, the high-witness filter of the
  examples, and a filter that rejects with score 150.
\<close>

definition testConfig :: FilterConfig where
  "testConfig = \<lparr> threshold = Fin 80, enableP2WSHDetection = True,
                   enableOpReturnDetection = True, customFilters = None \<rparr>"

definition nanConfig :: FilterConfig where
  "nanConfig = testConfig \<lparr> threshold := NaN \<rparr>"

definition config58 :: FilterConfig where
  "config58 = testConfig \<lparr> threshold := Fin 58 \<rparr>"

definition throwingFilter :: jsFilter where
  "throwingFilter tx = Inl (Exception ''boom'')"

definition highWitnessFilter :: jsFilter where
  "highWitnessFilter tx =
     (let suspiciousInputs =
            length (filter (\<lambda>input. case witness input of
                                      None \<Rightarrow> False | Some items \<Rightarrow> length items > 10)
                           (inputs tx))
      in Inr \<lparr> accept = (suspiciousInputs = 0),
               score = (if suspiciousInputs > 0 then Fin 60 else Fin 0),
               detections = [],
               message = (if suspiciousInputs > 0 then HighWitness suspiciousInputs
                          else Text ''Normal witness data'') \<rparr>)"

definition overScoringFilter :: jsFilter where
  "overScoringFilter tx =
     Inr \<lparr> accept = False, score = Fin 150, detections = [], message = Text ''over'' \<rparr>"

text \<open>The suspicious inputs of a list of inputs (for the induction over the loop).\<close>

definition suspiciousOf :: "TransactionInput list \<Rightarrow> TransactionInput list" where
  "suspiciousOf ins =
     filter (\<lambda>input. isSuspicious (analyzeWitnessScript (lastWitnessItem input)))
       (filter hasThreeItems ins)"

text \<open>More example transactions: nothing to detect; a witness stack of eleven items.\<close>

definition plainTx :: ParsedTransaction where
  "plainTx = mkTx [mkInput None] [mkOutput 100000 [0x00, 0x14] (Some ''witness_v0_keyhash'')]"

definition manyWitnessTx :: ParsedTransaction where
  "manyWitnessTx =
     mkTx [mkInput (Some (replicate 11 [0x00]))]
          [mkOutput 100000 [0x00, 0x14] (Some ''witness_v0_keyhash'')]"

text \<open>Example engines, built as the test suite builds them.\<close>

definition twoFilterEngine :: FilterEngine where
  "twoFilterEngine =
     addJSFilter (addJSFilter (newFilterEngine testConfig) highWitnessFilter) overScoringFilter"

definition throwingEngine :: FilterEngine where
  "throwingEngine =
     addJSFilter (addJSFilter (newFilterEngine testConfig) throwingFilter) highWitnessFilter"

definition highWitnessEngine :: FilterEngine where
  "highWitnessEngine = addJSFilter (newFilterEngine testConfig) highWitnessFilter"

definition overScoringEngine :: FilterEngine where
  "overScoringEngine = addJSFilter (newFilterEngine testConfig) overScoringFilter"

definition nanEngine :: FilterEngine where
  "nanEngine = newFilterEngine nanConfig"

definition engine58 :: FilterEngine where
  "engine58 = newFilterEngine config58"


section \<open>The checked decoders never fault\<close>

text \<open>
  The loop equations are unfolded by hand, one step at a time.
\<close>

declare zeroLoop.simps [simp del]
declare repeatLoop.simps [simp del]
declare collectPubkeys.simps [simp del]
declare zeroLoop_checked.simps [simp del]
declare repeatLoop_checked.simps [simp del]
declare collectPubkeys_checked.simps [simp del]

lemma rd_in_range: "i < length xs \<Longrightarrow> rd xs i = Inr (xs ! i)"
  by (simp add: rd_def)

lemma andThen_Inr: "andThen (Inr x) f = f x"
  by (simp add: andThen_def)

lemma zeroLoop_checked_eq:
  "zeroLoop_checked data i zc cz mz = Inr (zeroLoop data i zc cz mz)"
proof (induction data i zc cz mz rule: zeroLoop.induct)
  case (1 data i zc cz mz)
  show ?case
  proof (cases "i < length data")
    case True
    with 1 show ?thesis
      by (subst zeroLoop_checked.simps, subst zeroLoop.simps)
         (simp add: rd_in_range andThen_Inr)
  next
    case False
    then show ?thesis
      by (subst zeroLoop_checked.simps, subst zeroLoop.simps) simp
  qed
qed

lemma repeatLoop_checked_eq:
  "repeatLoop_checked data i n = Inr (repeatLoop data i n)"
proof (induction data i n rule: repeatLoop.induct)
  case (1 data i n)
  show ?case
  proof (cases "i + 3 < length data")
    case True
    with 1 show ?thesis
      by (subst repeatLoop_checked.simps, subst repeatLoop.simps)
         (simp add: rd_in_range andThen_Inr)
  next
    case False
    then show ?thesis
      by (subst repeatLoop_checked.simps, subst repeatLoop.simps) simp
  qed
qed

lemma isLikelyFakePubkey_checked_eq:
  "isLikelyFakePubkey_checked pk = Inr (isLikelyFakePubkey pk)"
  by (simp add: isLikelyFakePubkey_checked_def isLikelyFakePubkey_def rd_in_range andThen_Inr
        zeroLoop_checked_eq repeatLoop_checked_eq Let_def split: prod.splits)

lemma collectPubkeys_checked_eq:
  "collectPubkeys_checked script i pks = Inr (collectPubkeys script i pks)"
proof (induction script i pks rule: collectPubkeys.induct)
  case (1 script i pks)
  show ?case
  proof (cases "i + 2 < length script")
    case True
    with 1 show ?thesis
      by (subst collectPubkeys_checked.simps, subst collectPubkeys.simps)
         (simp add: rd_in_range andThen_Inr Let_def)
  next
    case False
    then show ?thesis
      by (subst collectPubkeys_checked.simps, subst collectPubkeys.simps) simp
  qed
qed

lemma countFake_checked_eq:
  "countFake_checked pks n = Inr (countFake pks n)"
  by (induction pks arbitrary: n)
     (simp_all add: rd_in_range andThen_Inr isLikelyFakePubkey_checked_eq)

lemma analyzeWitnessScript_checked_eq:
  "analyzeWitnessScript_checked script = Inr (analyzeWitnessScript script)"
  by (simp add: analyzeWitnessScript_checked_def analyzeWitnessScript_def rd_in_range
        andThen_Inr collectPubkeys_checked_eq countFake_checked_eq Let_def)

lemma extractOpReturnData_checked_eq:
  "extractOpReturnData_checked script = Inr (extractOpReturnData script)"
  by (simp add: extractOpReturnData_checked_def extractOpReturnData_def rd_in_range
        andThen_Inr Let_def)

lemma extractWitnessScript_checked_eq:
  "extractWitnessScript_checked w = Inr (extractWitnessScript w)"
  by (simp add: extractWitnessScript_checked_def extractWitnessScript_def rd_in_range
        andThen_Inr split: option.splits)

text \<open>
  Claim C8.  For every byte sequence (and every witness stack) the decoding routines
  \<open>extractOpReturnData\<close> and \<open>extractWitnessScript\<close> and the witness-script analysis
  \<open>analyzeWitnessScript\<close> return a result and make no read outside the sequence: the
  versions with every read checked never report \<open>IndexOutOfRange\<close>, and return the
  value of the unchecked functions.  The loops are total functions (their termination is
  proved where they are defined), bounded by the length of the script.
\<close>

theorem decoders_total:
  "extractOpReturnData_checked script = Inr (extractOpReturnData script) \<and>
   extractWitnessScript_checked w = Inr (extractWitnessScript w) \<and>
   analyzeWitnessScript_checked script = Inr (analyzeWitnessScript script) \<and>
   isLikelyFakePubkey_checked script = Inr (isLikelyFakePubkey script)"
  by (simp add: extractOpReturnData_checked_eq extractWitnessScript_checked_eq
        analyzeWitnessScript_checked_eq isLikelyFakePubkey_checked_eq)

section \<open>The fake-pubkey heuristic and the suspicion rule\<close>

lemma leadingZeros_le_longest: "leadingZeros xs \<le> longestZeroRun xs"
  by (cases xs) simp_all

lemma zeroLoop_spec:
  "cz \<le> mz \<Longrightarrow>
   zeroLoop data i zc cz mz =
     (zc + length (filter (\<lambda>b. b = 0) (drop i data)),
      max mz (max (cz + leadingZeros (drop i data)) (longestZeroRun (drop i data))))"
proof (induction data i zc cz mz rule: zeroLoop.induct)
  case (1 data i zc cz mz)
  show ?case
  proof (cases "i < length data")
    case False
    then show ?thesis using "1.prems" by (subst zeroLoop.simps) simp
  next
    case True
    then have d: "drop i data = data ! i # drop (Suc i) data"
      by (simp add: Cons_nth_drop_Suc)
    show ?thesis
    proof (cases "data ! i = 0")
      case z: True
      have "zeroLoop data i zc cz mz =
              zeroLoop data (i + 1) (zc + 1) (cz + 1) (max mz (cz + 1))"
        using True z by (subst zeroLoop.simps) simp
      also have "\<dots> = (zc + 1 + length (filter (\<lambda>b. b = 0) (drop (i + 1) data)),
          max (max mz (cz + 1)) (max (cz + 1 + leadingZeros (drop (i + 1) data))
             (longestZeroRun (drop (i + 1) data))))"
        using True z by (intro "1.IH"(1)) simp_all
      finally show ?thesis
        using z d by (simp add: max_def)
    next
      case nz: False
      have "zeroLoop data i zc cz mz = zeroLoop data (i + 1) zc 0 mz"
        using True nz by (subst zeroLoop.simps) simp
      also have "\<dots> = (zc + length (filter (\<lambda>b. b = 0) (drop (i + 1) data)),
          max mz (max (0 + leadingZeros (drop (i + 1) data))
             (longestZeroRun (drop (i + 1) data))))"
        using True nz by (intro "1.IH"(2)) simp_all
      finally show ?thesis
        using nz d "1.prems" leadingZeros_le_longest [of "drop (Suc i) data"]
        by (simp add: max_def)
    qed
  qed
qed

lemma leadingZeros_ge_iff:
  "n \<le> leadingZeros xs \<longleftrightarrow> n \<le> length xs \<and> (\<forall>j<n. xs ! j = 0)"
proof (induction xs arbitrary: n)
  case Nil
  then show ?case by auto
next
  case (Cons x xs)
  show ?case
  proof (cases n)
    case 0
    then show ?thesis by simp
  next
    case (Suc m)
    then show ?thesis
      using Cons.IH [of m] by (auto simp add: less_Suc_eq_0_disj)
  qed
qed

lemma hasZeroRun_Cons:
  "hasZeroRun (x # xs) n \<longleftrightarrow> n \<le> leadingZeros (x # xs) \<or> hasZeroRun xs n"
proof
  assume "hasZeroRun (x # xs) n"
  then obtain i where i: "i + n \<le> length (x # xs)" "\<forall>j<n. (x # xs) ! (i + j) = 0"
    by (auto simp add: hasZeroRun_def)
  show "n \<le> leadingZeros (x # xs) \<or> hasZeroRun xs n"
  proof (cases i)
    case 0
    with i have "n \<le> length (x # xs) \<and> (\<forall>j<n. (x # xs) ! j = 0)" by simp
    then have "n \<le> leadingZeros (x # xs)" by (rule iffD2 [OF leadingZeros_ge_iff])
    then show ?thesis by (rule disjI1)
  next
    case (Suc k)
    with i have "k + n \<le> length xs \<and> (\<forall>j<n. xs ! (k + j) = 0)" by simp
    then have "hasZeroRun xs n" unfolding hasZeroRun_def by blast
    then show ?thesis by (rule disjI2)
  qed
next
  assume "n \<le> leadingZeros (x # xs) \<or> hasZeroRun xs n"
  then show "hasZeroRun (x # xs) n"
  proof
    assume "n \<le> leadingZeros (x # xs)"
    then have "n \<le> length (x # xs) \<and> (\<forall>j<n. (x # xs) ! j = 0)"
      by (rule iffD1 [OF leadingZeros_ge_iff])
    then have "0 + n \<le> length (x # xs) \<and> (\<forall>j<n. (x # xs) ! (0 + j) = 0)"
      by simp
    then show ?thesis unfolding hasZeroRun_def by blast
  next
    assume "hasZeroRun xs n"
    then obtain i where "i + n \<le> length xs" "\<forall>j<n. xs ! (i + j) = 0"
      by (auto simp add: hasZeroRun_def)
    then have "Suc i + n \<le> length (x # xs) \<and> (\<forall>j<n. (x # xs) ! (Suc i + j) = 0)"
      by simp
    then show ?thesis unfolding hasZeroRun_def by blast
  qed
qed

lemma longestZeroRun_ge_iff: "n \<le> longestZeroRun xs \<longleftrightarrow> hasZeroRun xs n"
proof (induction xs)
  case Nil
  then show ?case by (auto simp add: hasZeroRun_def)
next
  case (Cons x xs)
  have "n \<le> longestZeroRun (x # xs) \<longleftrightarrow>
          n \<le> leadingZeros (x # xs) \<or> n \<le> longestZeroRun xs"
    by (simp only: longestZeroRun.simps le_max_iff_disj)
  then show ?case by (simp only: Cons.IH hasZeroRun_Cons)
qed

lemma spec_longestZeroRun_eq: "spec_longestZeroRun xs = longestZeroRun xs"
proof -
  have "{n. hasZeroRun xs n} = {..longestZeroRun xs}"
    by (auto simp add: longestZeroRun_ge_iff [symmetric])
  moreover have "Max {..longestZeroRun xs} = longestZeroRun xs"
    by (rule Max_eqI) auto
  ultimately show ?thesis by (simp add: spec_longestZeroRun_def)
qed

lemma zeroLoop_result:
  "zeroLoop data 0 0 0 0 = (spec_zeroCount data, spec_longestZeroRun data)"
  using leadingZeros_le_longest [of data]
  by (simp add: zeroLoop_spec spec_longestZeroRun_eq spec_zeroCount_def max_def)

lemma finite_windowsFrom: "finite (windowsFrom data i)"
proof -
  have "windowsFrom data i \<subseteq> {..<length data}" by (auto simp add: windowsFrom_def)
  then show ?thesis by (rule finite_subset) simp
qed

lemma windowsFrom_step:
  "i + 3 < length data \<Longrightarrow>
   windowsFrom data i =
     (if data ! (i + 1) = data ! i \<and> data ! (i + 2) = data ! i \<and> data ! (i + 3) = data ! i
      then insert i (windowsFrom data (i + 1)) else windowsFrom data (i + 1))"
  by (auto simp add: windowsFrom_def Suc_le_eq le_less)

lemma windowsFrom_done: "\<not> i + 3 < length data \<Longrightarrow> windowsFrom data i = {}"
  by (auto simp add: windowsFrom_def)

lemma repeatLoop_spec:
  "repeatLoop data i n = n + card (windowsFrom data i)"
proof (induction data i n rule: repeatLoop.induct)
  case (1 data i n)
  show ?case
  proof (cases "i + 3 < length data")
    case False
    then show ?thesis by (subst repeatLoop.simps) (simp add: windowsFrom_done)
  next
    case True
    have notin: "i \<notin> windowsFrom data (i + 1)" by (simp add: windowsFrom_def)
    define c where
      "c = (data ! i = data ! (i + 1) \<and> data ! i = data ! (i + 2) \<and> data ! i = data ! (i + 3))"
    have step: "repeatLoop data i n =
        (if c then repeatLoop data (i + 1) (n + 1) else repeatLoop data (i + 1) n)"
      using True unfolding c_def by (subst repeatLoop.simps) (simp only: if_True)
    have w: "windowsFrom data i =
        (if c then insert i (windowsFrom data (i + 1)) else windowsFrom data (i + 1))"
      unfolding c_def by (subst windowsFrom_step [OF True]) metis
    show ?thesis
    proof (cases c)
      case eq: True
      have "repeatLoop data (i + 1) (n + 1) = n + 1 + card (windowsFrom data (i + 1))"
        by (rule "1.IH"(1) [OF True eq [unfolded c_def]])
      then show ?thesis
        using eq notin finite_windowsFrom [of data "i + 1"] by (simp add: step w)
    next
      case ne: False
      have "repeatLoop data (i + 1) n = n + card (windowsFrom data (i + 1))"
        by (rule "1.IH"(2) [OF True ne [unfolded c_def]])
      then show ?thesis
        using ne by (simp add: step w)
    qed
  qed
qed

lemma repeatLoop_result: "repeatLoop data 0 0 = spec_repeatedRuns data"
  by (simp add: repeatLoop_spec windowsFrom_def spec_repeatedRuns_def)

lemma countFake_filter:
  "countFake pks n = n + length (filter countedFake pks)"
  by (induction pks arbitrary: n) (simp_all add: countedFake_def)

lemma countFake_le: "countFake pks 0 \<le> length pks"
  by (simp add: countFake_filter)

lemma analyze_shaped:
  assumes "script \<noteq> []" "last script = 0xae"
  shows "pubkeyCount (analyzeWitnessScript script) = length (collectPubkeys script 1 [])"
    and "fakePubkeyCount (analyzeWitnessScript script) = countFake (collectPubkeys script 1 []) 0"
    and "hasCheckmultisig (analyzeWitnessScript script)"
    and "isSuspicious (analyzeWitnessScript script) =
           ((length (collectPubkeys script 1 []) > 3 \<and>
             2 * countFake (collectPubkeys script 1 []) 0 > length (collectPubkeys script 1 []))
            \<or> length (collectPubkeys script 1 []) > 10)"
proof -
  have l: "script ! (length script - 1) = 0xae"
    using assms by (simp add: last_conv_nth)
  have half: "((of_nat b :: rat) < of_nat a * 2) = (b < 2 * a)" for a b :: nat
  proof -
    have "((of_nat b :: rat) < of_nat a * 2) = (of_nat b < (of_nat (2 * a) :: rat))"
      by (simp add: mult.commute)
    also have "\<dots> = (b < 2 * a)" by (simp only: of_nat_less_iff)
    finally show ?thesis .
  qed
  show "pubkeyCount (analyzeWitnessScript script) = length (collectPubkeys script 1 [])"
    using assms l by (simp add: analyzeWitnessScript_def Let_def)
  show "fakePubkeyCount (analyzeWitnessScript script) = countFake (collectPubkeys script 1 []) 0"
    using assms l by (simp add: analyzeWitnessScript_def Let_def)
  show "hasCheckmultisig (analyzeWitnessScript script)"
    using assms l by (simp add: analyzeWitnessScript_def Let_def)
  show "isSuspicious (analyzeWitnessScript script) =
           ((length (collectPubkeys script 1 []) > 3 \<and>
             2 * countFake (collectPubkeys script 1 []) 0 > length (collectPubkeys script 1 []))
            \<or> length (collectPubkeys script 1 []) > 10)"
    using assms l by (auto simp add: analyzeWitnessScript_def Let_def half)
qed

lemma analyze_unshaped:
  assumes "script = [] \<or> last script \<noteq> 0xae"
  shows "pubkeyCount (analyzeWitnessScript script) = 0"
    and "fakePubkeyCount (analyzeWitnessScript script) = 0"
    and "\<not> isSuspicious (analyzeWitnessScript script)"
proof -
  have "script = [] \<or> script ! (length script - 1) \<noteq> 0xae"
    using assms by (cases "script = []") (simp_all add: last_conv_nth)
  then show "pubkeyCount (analyzeWitnessScript script) = 0"
    and "fakePubkeyCount (analyzeWitnessScript script) = 0"
    and "\<not> isSuspicious (analyzeWitnessScript script)"
    by (auto simp add: analyzeWitnessScript_def Let_def)
qed


lemma isLikelyFakePubkey_spec:
  "length pubkey = 33 \<Longrightarrow> pubkey ! 0 = 0x02 \<or> pubkey ! 0 = 0x03 \<Longrightarrow>
   isLikelyFakePubkey pubkey =
     (spec_longestZeroRun (drop 1 pubkey) > 4 \<or> spec_zeroCount (drop 1 pubkey) > 10 \<or>
      spec_repeatedRuns (drop 1 pubkey) > 2)"
  by (auto simp add: isLikelyFakePubkey_def zeroLoop_result repeatLoop_result Let_def)

lemma half_rat: "((of_nat a :: rat) > of_nat b * 50 / 100) = (2 * a > b)"
proof -
  have "((of_nat a :: rat) > of_nat b * 50 / 100) = (of_nat b < (of_nat (2 * a) :: rat))"
    by (simp add: mult.commute)
  also have "\<dots> = (b < 2 * a)" by (simp only: of_nat_less_iff)
  finally show ?thesis .
qed

lemma collectPubkeys_push:
  "i + 2 < length script \<Longrightarrow> script ! i = 0x21 \<Longrightarrow>
   collectPubkeys script i pubkeys =
     collectPubkeys script (i + 34) (pubkeys @ [slice script (i + 1) (i + 34)])"
  by (subst collectPubkeys.simps) (simp add: Let_def)

lemma collectPubkeys_grows: "length pubkeys \<le> length (collectPubkeys script i pubkeys)"
proof (induction script i pubkeys rule: collectPubkeys.induct)
  case (1 script i pubkeys)
  show ?case
  proof (cases "i + 2 < length script")
    case False
    then show ?thesis by (subst collectPubkeys.simps) simp
  next
    case True
    then show ?thesis
      using "1.IH" by (subst collectPubkeys.simps) (auto simp add: Let_def)
  qed
qed

text \<open>The analysis evaluated on the three example scripts.\<close>

lemma eval_fake: "isLikelyFakePubkey (0x02 # replicate 32 0x00)"
  by code_simp

lemma eval_three:
  "analyzeWitnessScript threeFakeScript =
     \<lparr> isSuspicious = False, pubkeyCount = 3, fakePubkeyCount = 3,
       hasCheckmultisig = True, scriptSize = 105 \<rparr>"
  by code_simp

lemma eval_spam:
  "analyzeWitnessScript spamScript =
     \<lparr> isSuspicious = True, pubkeyCount = 12, fakePubkeyCount = 12,
       hasCheckmultisig = True, scriptSize = 412 \<rparr>"
  by code_simp

lemma eval_truncated:
  "analyzeWitnessScript truncatedScript =
     \<lparr> isSuspicious = True, pubkeyCount = 11, fakePubkeyCount = 0,
       hasCheckmultisig = True, scriptSize = 345 \<rparr>"
  by code_simp

lemma shaped_three: "threeFakeScript \<noteq> [] \<and> last threeFakeScript = 0xae"
  by (simp add: threeFakeScript_def)

lemma shaped_truncated: "truncatedScript \<noteq> [] \<and> last truncatedScript = 0xae"
  by (simp add: truncatedScript_def)

lemma eval_truncated_keys:
  "length (collectPubkeys truncatedScript 1 []) = 11 \<and>
   collectPubkeys truncatedScript 1 [] ! 10 = [0x02, 0x5b, 0xae] \<and>
   length truncatedScript = 345 \<and> truncatedScript ! 341 = 0x21"
  by code_simp

text \<open>
  Claim C3.  A 33-byte pubkey candidate whose first byte is \<open>0x02\<close> or \<open>0x03\<close> is
  classified fake if and only if, over its remaining 32 bytes, the longest run of
  consecutive zero bytes exceeds 4, or the number of zero bytes exceeds 10, or the number
  of window positions that start four identical bytes exceeds 2.  For a script that ends
  in \<open>0xae\<close>, \<open>pubkeyCount\<close> is the number of candidates collected,
  \<open>fakePubkeyCount\<close> the number of those that are counted fake, and the input is
  suspicious if and only if (\<open>pubkeyCount > 3\<close> and \<open>fakePubkeyCount\<close> exceeds 50% of
  \<open>pubkeyCount\<close>) or \<open>pubkeyCount > 10\<close>; in particular exactly 3 pubkeys are never
  suspicious and more than 10 always are.
\<close>

theorem fake_and_suspicious_rules:
  "(length pubkey = 33 \<and> (pubkey ! 0 = 0x02 \<or> pubkey ! 0 = 0x03) \<longrightarrow>
      isLikelyFakePubkey pubkey =
        (spec_longestZeroRun (drop 1 pubkey) > 4 \<or> spec_zeroCount (drop 1 pubkey) > 10 \<or>
         spec_repeatedRuns (drop 1 pubkey) > 2)) \<and>
   (script \<noteq> [] \<and> last script = 0xae \<longrightarrow>
      (let r = analyzeWitnessScript script in
         pubkeyCount r = length (collectPubkeys script 1 []) \<and>
         fakePubkeyCount r = length (filter countedFake (collectPubkeys script 1 [])) \<and>
         isSuspicious r =
           ((pubkeyCount r > 3 \<and>
             (of_nat (fakePubkeyCount r) :: rat) > of_nat (pubkeyCount r) * 50 / 100)
            \<or> pubkeyCount r > 10) \<and>
         (pubkeyCount r = 3 \<longrightarrow> \<not> isSuspicious r) \<and>
         (pubkeyCount r > 10 \<longrightarrow> isSuspicious r)))"
proof (intro conjI impI)
  assume "length pubkey = 33 \<and> (pubkey ! 0 = 0x02 \<or> pubkey ! 0 = 0x03)"
  then show "isLikelyFakePubkey pubkey =
        (spec_longestZeroRun (drop 1 pubkey) > 4 \<or> spec_zeroCount (drop 1 pubkey) > 10 \<or>
         spec_repeatedRuns (drop 1 pubkey) > 2)"
    using isLikelyFakePubkey_spec [of pubkey] by blast
next
  assume a: "script \<noteq> [] \<and> last script = 0xae"
  then have s: "script \<noteq> []" "last script = 0xae" by simp_all
  note sh = analyze_shaped [OF s]
  show "let r = analyzeWitnessScript script in
         pubkeyCount r = length (collectPubkeys script 1 []) \<and>
         fakePubkeyCount r = length (filter countedFake (collectPubkeys script 1 [])) \<and>
         isSuspicious r =
           ((pubkeyCount r > 3 \<and>
             (of_nat (fakePubkeyCount r) :: rat) > of_nat (pubkeyCount r) * 50 / 100)
            \<or> pubkeyCount r > 10) \<and>
         (pubkeyCount r = 3 \<longrightarrow> \<not> isSuspicious r) \<and>
         (pubkeyCount r > 10 \<longrightarrow> isSuspicious r)"
    unfolding Let_def half_rat
    by (simp only: sh countFake_filter) auto
qed

text \<open>
  The theorem at the all-zero key \<open>02 00..00\<close>, at the script of three such keys
  (each key is fake, all three are counted, and the input is not suspicious) and at the
  script of eleven pushes none of which is fake (the input is suspicious).
\<close>

theorem fake_and_suspicious_rules_witness:
  "length (0x02 # replicate 32 (0x00 :: byte)) = 33 \<and>
   isLikelyFakePubkey (0x02 # replicate 32 0x00) \<and>
   (spec_longestZeroRun (drop 1 (0x02 # replicate 32 0x00)) > 4 \<or>
    spec_zeroCount (drop 1 (0x02 # replicate 32 0x00)) > 10 \<or>
    spec_repeatedRuns (drop 1 (0x02 # replicate 32 0x00)) > 2) \<and>
   threeFakeScript \<noteq> [] \<and> last threeFakeScript = 0xae \<and>
   length (collectPubkeys threeFakeScript 1 []) = 3 \<and>
   length (filter countedFake (collectPubkeys threeFakeScript 1 [])) = 3 \<and>
   \<not> isSuspicious (analyzeWitnessScript threeFakeScript) \<and>
   truncatedScript \<noteq> [] \<and> last truncatedScript = 0xae \<and>
   length (collectPubkeys truncatedScript 1 []) = 11 \<and>
   length (filter countedFake (collectPubkeys truncatedScript 1 [])) = 0 \<and>
   isSuspicious (analyzeWitnessScript truncatedScript)"
  using fake_and_suspicious_rules [of "0x02 # replicate 32 0x00" threeFakeScript]
    fake_and_suspicious_rules [of "0x02 # replicate 32 0x00" truncatedScript]
    eval_fake shaped_three shaped_truncated
  by (simp add: eval_three eval_truncated Let_def)

text \<open>
  Claim C10.  \<open>fakePubkeyCount\<close> never exceeds \<open>pubkeyCount\<close>.  Every \<open>0x21\<close> met
  by the loop appends one candidate (the slice of up to 33 bytes after it, shorter when
  the script ends first) and no candidate is ever removed, so it counts towards
  \<open>pubkeyCount\<close>; a candidate is counted fake only when it is exactly 33 bytes long with
  first byte \<open>0x02\<close> or \<open>0x03\<close>, and any other candidate leaves \<open>fakePubkeyCount\<close>
  unchanged.
\<close>

theorem fake_count_bounded:
  "fakePubkeyCount (analyzeWitnessScript script) \<le> pubkeyCount (analyzeWitnessScript script) \<and>
   (script \<noteq> [] \<and> last script = 0xae \<longrightarrow>
      pubkeyCount (analyzeWitnessScript script) = length (collectPubkeys script 1 []) \<and>
      fakePubkeyCount (analyzeWitnessScript script) =
        length (filter countedFake (collectPubkeys script 1 []))) \<and>
   (i + 2 < length script \<and> script ! i = 0x21 \<longrightarrow>
      collectPubkeys script i pubkeys =
        collectPubkeys script (i + 34) (pubkeys @ [slice script (i + 1) (i + 34)])) \<and>
   length pubkeys \<le> length (collectPubkeys script i pubkeys) \<and>
   (countedFake pubkey \<longrightarrow> length pubkey = 33 \<and> (pubkey ! 0 = 0x02 \<or> pubkey ! 0 = 0x03)) \<and>
   ((length pubkey \<noteq> 33 \<or> (pubkey ! 0 \<noteq> 0x02 \<and> pubkey ! 0 \<noteq> 0x03)) \<longrightarrow>
      countFake (pubkey # rest) n = countFake rest n)"
proof (intro conjI impI)
  show "fakePubkeyCount (analyzeWitnessScript script) \<le> pubkeyCount (analyzeWitnessScript script)"
  proof (cases "script \<noteq> [] \<and> last script = 0xae")
    case True
    then show ?thesis by (simp add: analyze_shaped countFake_le)
  next
    case False
    then have "script = [] \<or> last script \<noteq> 0xae" by blast
    then show ?thesis by (simp add: analyze_unshaped)
  qed
next
  assume "script \<noteq> [] \<and> last script = 0xae"
  then show "pubkeyCount (analyzeWitnessScript script) = length (collectPubkeys script 1 [])"
    and "fakePubkeyCount (analyzeWitnessScript script) =
        length (filter countedFake (collectPubkeys script 1 []))"
    by (simp_all add: analyze_shaped countFake_filter)
next
  assume "i + 2 < length script \<and> script ! i = 0x21"
  then show "collectPubkeys script i pubkeys =
        collectPubkeys script (i + 34) (pubkeys @ [slice script (i + 1) (i + 34)])"
    by (simp add: collectPubkeys_push)
next
  show "length pubkeys \<le> length (collectPubkeys script i pubkeys)"
    by (rule collectPubkeys_grows)
next
  assume "countedFake pubkey"
  then show "length pubkey = 33" and "pubkey ! 0 = 0x02 \<or> pubkey ! 0 = 0x03"
    by (simp_all add: countedFake_def)
next
  assume "length pubkey \<noteq> 33 \<or> (pubkey ! 0 \<noteq> 0x02 \<and> pubkey ! 0 \<noteq> 0x03)"
  then show "countFake (pubkey # rest) n = countFake rest n"
    by auto
qed

text \<open>
  The theorem at a script whose eleventh push is cut short: the 3-byte candidate is
  collected, is not counted fake, and the count of 11 alone makes the input suspicious.
\<close>

theorem fake_count_bounded_witness:
  "truncatedScript \<noteq> [] \<and> last truncatedScript = 0xae \<and>
   341 + 2 < length truncatedScript \<and> truncatedScript ! 341 = 0x21 \<and>
   length [0x02, 0x5b, 0xae :: byte] \<noteq> 33 \<and>
   \<not> countedFake [0x02, 0x5b, 0xae] \<and>
   countFake [[0x02, 0x5b, 0xae]] 0 = 0 \<and>
   collectPubkeys truncatedScript 1 [] ! 10 = [0x02, 0x5b, 0xae] \<and>
   length (collectPubkeys truncatedScript 1 []) = 11 \<and>
   length (filter countedFake (collectPubkeys truncatedScript 1 [])) = 0 \<and>
   isSuspicious (analyzeWitnessScript truncatedScript)"
  using fake_count_bounded [of truncatedScript 341 "[]" "[0x02, 0x5b, 0xae]" "[]" 0]
    shaped_truncated eval_truncated_keys
  by (simp add: eval_truncated)

section \<open>The OP_RETURN payload extractor\<close>

lemma detectScriptType_nulldata:
  "detectScriptType script = ''nulldata'' \<longleftrightarrow> script \<noteq> [] \<and> script ! 0 = 0x6a"
  by (simp add: detectScriptType_def)





section \<open>The Chained-OP_RETURN detector\<close>

text \<open>What the loop over the collected outputs leaves in its two variables.\<close>

lemma magicPayloads_Nil: "magicPayloads [] = []"
  by (simp add: magicPayloads_def)

lemma magicPayloads_Cons:
  "magicPayloads (out # outs) =
     (case extractOpReturnData (scriptPubKey out) of
        None \<Rightarrow> []
      | Some data \<Rightarrow> if isMagic data then [data] else []) @ magicPayloads outs"
  by (simp add: magicPayloads_def)

lemma scan_fst:
  "fst (scanOpReturns outs hm d) = (hm \<or> magicPayloads outs \<noteq> [])"
  by (induction outs arbitrary: hm d)
     (auto simp add: magicPayloads_Nil magicPayloads_Cons isMagic_def Let_def
        split: option.splits)

lemma scan_magicPrefix:
  "magicPrefix (snd (scanOpReturns outs hm d)) =
     (if magicPayloads outs \<noteq> [] then Some True else magicPrefix d)"
  by (induction outs arbitrary: hm d)
     (auto simp add: magicPayloads_Nil magicPayloads_Cons isMagic_def Let_def
        split: option.splits)

lemma scan_chunkIndex:
  "chunkIndex (snd (scanOpReturns outs hm d)) =
     (case filter (\<lambda>data. length data \<ge> 4) (magicPayloads outs) of
        [] \<Rightarrow> chunkIndex d
      | x # xs \<Rightarrow> Some (last (x # xs) ! 2))"
  by (induction outs arbitrary: hm d)
     (auto simp add: magicPayloads_Nil magicPayloads_Cons isMagic_def Let_def
        split: option.splits list.splits)

lemma scan_totalChunks:
  "totalChunks (snd (scanOpReturns outs hm d)) =
     (case filter (\<lambda>data. length data \<ge> 4) (magicPayloads outs) of
        [] \<Rightarrow> totalChunks d
      | x # xs \<Rightarrow> Some (last (x # xs) ! 3))"
  by (induction outs arbitrary: hm d)
     (auto simp add: magicPayloads_Nil magicPayloads_Cons isMagic_def Let_def
        split: option.splits list.splits)

lemma fold_max_gt: "(fold max xs a > n) = (a > n \<or> (\<exists>x \<in> set xs. x > (n::nat)))"
  by (induction xs arbitrary: a) auto

lemma Math_max_gt: "(Math_max xs > n) = (\<exists>x \<in> set xs. x > n)"
  by (simp add: Math_max_def fold_max_gt)

lemma largest_gt_80:
  "(Math_max (map (\<lambda>out. case extractOpReturnData (scriptPubKey out) of
                            None \<Rightarrow> 0 | Some data \<Rightarrow> length data) (opReturnOutputs tx)) > 80)
     = spec_oversize tx"
  by (auto simp add: Math_max_gt spec_oversize_def split: option.splits)

lemma detect_cases:
  assumes ne: "opReturnOutputs tx \<noteq> []"
  shows "OpReturn_detect tx =
    (if spec_hasMagicPrefix tx then
       \<lparr> detected = True, confidence = Fin 95, reason = MagicPrefixReason,
         details = Some (ChainDetails
           (snd (if length (outputs tx) \<ge> 2 \<and> spec_smallValueOutput tx
                 then (True, snd (scanOpReturns (opReturnOutputs tx) False noDetails)
                               \<lparr> hasContinuationOutput := Some True \<rparr>)
                 else (False, snd (scanOpReturns (opReturnOutputs tx) False noDetails))))) \<rparr>
     else if length (outputs tx) \<ge> 2 \<and> spec_smallValueOutput tx then
       \<lparr> detected = True, confidence = Fin 60, reason = ChainPatternReason,
         details = Some (ChainDetails
           (snd (scanOpReturns (opReturnOutputs tx) False noDetails)
              \<lparr> hasContinuationOutput := Some True \<rparr>)) \<rparr>
     else if spec_oversize tx then
       (let n = Math_max (map (\<lambda>out. case extractOpReturnData (scriptPubKey out) of
                            None \<Rightarrow> 0 | Some data \<Rightarrow> length data) (opReturnOutputs tx))
        in \<lparr> detected = True, confidence = Fin 40, reason = OversizeReason n,
             details = Some (SizeDetails n) \<rparr>)
     else \<lparr> detected = False, confidence = Fin 0, reason = NoSuspiciousOpReturn,
            details = None \<rparr>)"
proof -
  obtain hm d where sc: "scanOpReturns (opReturnOutputs tx) False noDetails = (hm, d)"
    by (cases "scanOpReturns (opReturnOutputs tx) False noDetails")
  have hm: "hm = spec_hasMagicPrefix tx"
    using scan_fst [of "opReturnOutputs tx" False noDetails] sc
    by (simp add: spec_hasMagicPrefix_def)
  have sv: "list_ex (\<lambda>out. out_value out > 0 \<and> out_value out < 15000) (outputs tx)
              = spec_smallValueOutput tx"
    by (simp add: spec_smallValueOutput_def list_ex_iff)
  show ?thesis
    using ne
    by (simp add: OpReturn_detect_def sc hm sv largest_gt_80 Let_def)
qed


text \<open>
  Claim C4 says that, without a magic prefix, any output with a value strictly between 0
  and 15000 gives confidence 60.  A transaction whose only output is an OP_RETURN output
  worth 5000 has such an output and no magic prefix, and is not detected: the detector
  looks for a small output only when the transaction has at least two outputs.
\<close>

theorem continuation_needs_two_outputs:
  "opReturnOutputs singleOpReturnTx \<noteq> [] \<and>
   \<not> spec_hasMagicPrefix singleOpReturnTx \<and>
   spec_smallValueOutput singleOpReturnTx \<and>
   \<not> detected (OpReturn_detect singleOpReturnTx) \<and>
   confidence (OpReturn_detect singleOpReturnTx) = Fin 0"
  by (simp add: singleOpReturnTx_def mkTx_def mkOutput_def opReturnOutputs_def
        spec_hasMagicPrefix_def magicPayloads_def spec_smallValueOutput_def
        OpReturn_detect_def extractOpReturnData_def isMagic_def noDetails_def Math_max_def
        Let_def)

text \<open>
  Claim C4 as amended.  For a transaction with at least one collected OP_RETURN output the
  first of these that applies gives the result: some payload starts with \<open>01 bc\<close>:
  detected with confidence 95, and the details record the chunk index and total chunks
  (bytes 3 and 4) of the last such payload of at least 4 bytes, if any; the transaction has
  at least two outputs and some output (of any kind) has a value strictly between 0 and
  15000: detected with confidence 60; some payload is longer than 80 bytes: detected with
  confidence 40; otherwise not detected, confidence 0.
\<close>

theorem opreturn_priority:
  assumes "opReturnOutputs tx \<noteq> []"
  shows
    "(spec_hasMagicPrefix tx \<longrightarrow>
        detected (OpReturn_detect tx) \<and> confidence (OpReturn_detect tx) = Fin 95 \<and>
        (\<exists>d. details (OpReturn_detect tx) = Some (ChainDetails d) \<and>
             magicPrefix d = Some True \<and>
             chunkIndex d = spec_chunk tx 2 \<and> totalChunks d = spec_chunk tx 3)) \<and>
     (\<not> spec_hasMagicPrefix tx \<and> length (outputs tx) \<ge> 2 \<and> spec_smallValueOutput tx \<longrightarrow>
        detected (OpReturn_detect tx) \<and> confidence (OpReturn_detect tx) = Fin 60) \<and>
     (\<not> spec_hasMagicPrefix tx \<and> \<not> (length (outputs tx) \<ge> 2 \<and> spec_smallValueOutput tx) \<and>
      spec_oversize tx \<longrightarrow>
        detected (OpReturn_detect tx) \<and> confidence (OpReturn_detect tx) = Fin 40) \<and>
     (\<not> spec_hasMagicPrefix tx \<and> \<not> (length (outputs tx) \<ge> 2 \<and> spec_smallValueOutput tx) \<and>
      \<not> spec_oversize tx \<longrightarrow>
        \<not> detected (OpReturn_detect tx) \<and> confidence (OpReturn_detect tx) = Fin 0)"
proof (intro conjI impI)
  assume m: "spec_hasMagicPrefix tx"
  then have mp: "magicPayloads (opReturnOutputs tx) \<noteq> []"
    by (simp add: spec_hasMagicPrefix_def)
  let ?d0 = "snd (scanOpReturns (opReturnOutputs tx) False noDetails)"
  let ?d = "snd (if length (outputs tx) \<ge> 2 \<and> spec_smallValueOutput tx
                 then (True, ?d0 \<lparr> hasContinuationOutput := Some True \<rparr>)
                 else (False, ?d0))"
  have r: "OpReturn_detect tx =
       \<lparr> detected = True, confidence = Fin 95, reason = MagicPrefixReason,
         details = Some (ChainDetails ?d) \<rparr>"
    using m by (simp only: detect_cases [OF assms] if_True)
  show "detected (OpReturn_detect tx)" by (simp add: r)
  show "confidence (OpReturn_detect tx) = Fin 95" by (simp add: r)
  have "magicPrefix ?d = Some True"
    using mp by (simp add: scan_magicPrefix)
  moreover have "chunkIndex ?d = spec_chunk tx 2"
    by (simp add: scan_chunkIndex spec_chunk_def noDetails_def split: list.splits)
  moreover have "totalChunks ?d = spec_chunk tx 3"
    by (simp add: scan_totalChunks spec_chunk_def noDetails_def split: list.splits)
  ultimately show "\<exists>d. details (OpReturn_detect tx) = Some (ChainDetails d) \<and>
             magicPrefix d = Some True \<and>
             chunkIndex d = spec_chunk tx 2 \<and> totalChunks d = spec_chunk tx 3"
    by (simp add: r)
next
  assume a: "\<not> spec_hasMagicPrefix tx \<and> length (outputs tx) \<ge> 2 \<and> spec_smallValueOutput tx"
  then show "detected (OpReturn_detect tx)" and "confidence (OpReturn_detect tx) = Fin 60"
    by (simp_all add: detect_cases [OF assms])
next
  assume a: "\<not> spec_hasMagicPrefix tx \<and>
      \<not> (length (outputs tx) \<ge> 2 \<and> spec_smallValueOutput tx) \<and> spec_oversize tx"
  then show "detected (OpReturn_detect tx)" and "confidence (OpReturn_detect tx) = Fin 40"
    by (auto simp add: detect_cases [OF assms] Let_def)
next
  assume a: "\<not> spec_hasMagicPrefix tx \<and>
      \<not> (length (outputs tx) \<ge> 2 \<and> spec_smallValueOutput tx) \<and> \<not> spec_oversize tx"
  then show "\<not> detected (OpReturn_detect tx)" and "confidence (OpReturn_detect tx) = Fin 0"
    by (auto simp add: detect_cases [OF assms])
qed

lemma eval_magicTx:
  "opReturnOutputs magicTx \<noteq> [] \<and> spec_hasMagicPrefix magicTx \<and>
   spec_chunk magicTx 2 = Some 0x00 \<and> spec_chunk magicTx 3 = Some 0x0a"
  by (simp add: magicTx_def mkTx_def mkOutput_def opReturnOutputs_def
        spec_hasMagicPrefix_def magicPayloads_def spec_chunk_def
        extractOpReturnData_def isMagic_def Let_def)

lemma eval_continuationTx:
  "opReturnOutputs continuationTx \<noteq> [] \<and> \<not> spec_hasMagicPrefix continuationTx \<and>
   length (outputs continuationTx) \<ge> 2 \<and> spec_smallValueOutput continuationTx"
  by (simp add: continuationTx_def mkTx_def mkOutput_def opReturnOutputs_def
        spec_hasMagicPrefix_def magicPayloads_def spec_smallValueOutput_def
        extractOpReturnData_def isMagic_def Let_def)

lemma eval_oversizeTx:
  "opReturnOutputs oversizeTx \<noteq> [] \<and> \<not> spec_hasMagicPrefix oversizeTx \<and>
   \<not> (length (outputs oversizeTx) \<ge> 2 \<and> spec_smallValueOutput oversizeTx) \<and>
   spec_oversize oversizeTx"
  by (simp add: oversizeTx_def mkTx_def mkOutput_def opReturnOutputs_def
        spec_hasMagicPrefix_def magicPayloads_def spec_smallValueOutput_def spec_oversize_def
        extractOpReturnData_def isMagic_def Let_def)

lemma eval_singleOpReturnTx:
  "opReturnOutputs singleOpReturnTx \<noteq> [] \<and> \<not> spec_hasMagicPrefix singleOpReturnTx \<and>
   \<not> (length (outputs singleOpReturnTx) \<ge> 2 \<and> spec_smallValueOutput singleOpReturnTx) \<and>
   \<not> spec_oversize singleOpReturnTx"
  by (simp add: singleOpReturnTx_def mkTx_def mkOutput_def opReturnOutputs_def
        spec_hasMagicPrefix_def magicPayloads_def spec_smallValueOutput_def spec_oversize_def
        extractOpReturnData_def isMagic_def Let_def)

text \<open>
  The theorem at one transaction for each of the four outcomes: the 4-byte magic payload
  \<open>01 bc 00 0a\<close>, a 100-byte payload beside an output worth 5000, the 100-byte payload
  alone, and an empty payload alone.
\<close>

theorem opreturn_priority_witness:
  "opReturnOutputs magicTx \<noteq> [] \<and> spec_hasMagicPrefix magicTx \<and>
   detected (OpReturn_detect magicTx) \<and> confidence (OpReturn_detect magicTx) = Fin 95 \<and>
   (\<exists>d. details (OpReturn_detect magicTx) = Some (ChainDetails d) \<and>
        magicPrefix d = Some True \<and> chunkIndex d = Some 0x00 \<and> totalChunks d = Some 0x0a) \<and>
   opReturnOutputs continuationTx \<noteq> [] \<and>
   detected (OpReturn_detect continuationTx) \<and>
   confidence (OpReturn_detect continuationTx) = Fin 60 \<and>
   opReturnOutputs oversizeTx \<noteq> [] \<and>
   detected (OpReturn_detect oversizeTx) \<and> confidence (OpReturn_detect oversizeTx) = Fin 40 \<and>
   opReturnOutputs singleOpReturnTx \<noteq> [] \<and>
   \<not> detected (OpReturn_detect singleOpReturnTx) \<and>
   confidence (OpReturn_detect singleOpReturnTx) = Fin 0"
  using opreturn_priority [of magicTx] eval_magicTx
    opreturn_priority [of continuationTx] eval_continuationTx
    opreturn_priority [of oversizeTx] eval_oversizeTx
    opreturn_priority [of singleOpReturnTx] eval_singleOpReturnTx
  by simp

text \<open>
  Claim C5 says that an output with no type tag whose script begins with \<open>0x6a\<close> is
  still collected.  It is not: the detector filters on the tag alone, and a transaction
  whose only output is such an output is reported as having no OP_RETURN outputs.
\<close>

theorem untagged_output_not_collected:
  "outputs untaggedOpReturnTx = [mkOutput 0 [0x6a, 0x04, 0x01, 0xbc, 0x00, 0x0a] None] \<and>
   scriptPubKeyType (mkOutput 0 [0x6a, 0x04, 0x01, 0xbc, 0x00, 0x0a] None) = None \<and>
   scriptPubKey (mkOutput 0 [0x6a, 0x04, 0x01, 0xbc, 0x00, 0x0a] None) ! 0 = 0x6a \<and>
   opReturnOutputs untaggedOpReturnTx = [] \<and>
   OpReturn_detect untaggedOpReturnTx =
     \<lparr> detected = False, confidence = Fin 0, reason = NoOpReturnOutputs, details = None \<rparr>"
  by (simp add: untaggedOpReturnTx_def mkTx_def mkOutput_def opReturnOutputs_def
        OpReturn_detect_def)

text \<open>
  Claim C5 as amended.  The detector collects exactly the outputs that carry the tag
  \<open>nulldata\<close>; when there is none the result is not detected, confidence 0.  The first
  byte is looked at by the parser, not by the detector: for an output whose tag is the one
  \<open>detectScriptType\<close> assigns to its script (as \<open>parseHex\<close> does), being collected is
  the same as having a non-empty script that begins with \<open>0x6a\<close>.
\<close>

theorem collects_tagged_outputs:
  "set (opReturnOutputs tx) =
     {out \<in> set (outputs tx). scriptPubKeyType out = Some ''nulldata''} \<and>
   (opReturnOutputs tx = [] \<longrightarrow>
      \<not> detected (OpReturn_detect tx) \<and> confidence (OpReturn_detect tx) = Fin 0) \<and>
   (\<forall>out \<in> set (outputs tx).
      scriptPubKeyType out = Some (detectScriptType (scriptPubKey out)) \<longrightarrow>
        (out \<in> set (opReturnOutputs tx) \<longleftrightarrow>
           scriptPubKey out \<noteq> [] \<and> scriptPubKey out ! 0 = 0x6a))"
proof (intro conjI impI ballI)
  show "set (opReturnOutputs tx) =
     {out \<in> set (outputs tx). scriptPubKeyType out = Some ''nulldata''}"
    by (auto simp add: opReturnOutputs_def)
next
  assume "opReturnOutputs tx = []"
  then show "\<not> detected (OpReturn_detect tx)" and "confidence (OpReturn_detect tx) = Fin 0"
    by (simp_all add: OpReturn_detect_def)
next
  fix out
  assume "out \<in> set (outputs tx)"
    and "scriptPubKeyType out = Some (detectScriptType (scriptPubKey out))"
  then show "out \<in> set (opReturnOutputs tx) \<longleftrightarrow>
           scriptPubKey out \<noteq> [] \<and> scriptPubKey out ! 0 = 0x6a"
    using detectScriptType_nulldata [of "scriptPubKey out"]
    by (simp add: opReturnOutputs_def)
qed

theorem collects_tagged_outputs_witness:
  "set (opReturnOutputs untaggedOpReturnTx) = {} \<and>
   \<not> detected (OpReturn_detect untaggedOpReturnTx) \<and>
   confidence (OpReturn_detect untaggedOpReturnTx) = Fin 0 \<and>
   set (opReturnOutputs magicTx) =
     {mkOutput 0 [0x6a, 0x04, 0x01, 0xbc, 0x00, 0x0a] (Some ''nulldata'')}"
proof -
  have u: "opReturnOutputs untaggedOpReturnTx = []"
    by (simp add: untaggedOpReturnTx_def mkTx_def mkOutput_def opReturnOutputs_def)
  have m: "outputs magicTx =
      [mkOutput 0 [0x6a, 0x04, 0x01, 0xbc, 0x00, 0x0a] (Some ''nulldata''),
       mkOutput 9000 [0x00, 0x14] (Some ''witness_v0_keyhash'')]"
    by (simp add: magicTx_def mkTx_def)
  have t: "scriptPubKeyType (mkOutput 9000 [0x00, 0x14] (Some ''witness_v0_keyhash''))
             \<noteq> Some ''nulldata''"
    "scriptPubKeyType (mkOutput 0 [0x6a, 0x04, 0x01, 0xbc, 0x00, 0x0a] (Some ''nulldata''))
             = Some ''nulldata''"
    by (simp_all add: mkOutput_def)
  show ?thesis
    using collects_tagged_outputs [of untaggedOpReturnTx] collects_tagged_outputs [of magicTx]
      u m t
    by auto
qed

section \<open>Rounding to a double\<close>

text \<open>
  \<open>ilog2\<close> is the binary exponent; rounding never passes an integer; a result between 0
  and an integer below \<open>2^53\<close> stays there and is finite.
\<close>

lemma ilog2_lower:
  assumes "0 < x"
  shows "2 powi (ilog2 x) \<le> x"
proof -
  obtain p q where pq: "quotient_of x = (p, q)" by (cases "quotient_of x")
  have q: "0 < q" using pq by (rule quotient_of_denom_pos)
  have x: "x = of_int p / of_int q" using pq by (rule quotient_of_div)
  have p: "0 < p"
    using assms q unfolding x by (simp add: zero_less_divide_iff)
  let ?k = "bitlen p - bitlen q"
  show ?thesis
  proof (cases "2 powi ?k \<le> x")
    case True
    then show ?thesis by (simp add: ilog2_def pq)
  next
    case False
    have bp: "1 \<le> bitlen p" using p by (simp add: bitlen_alt_def)
    have bq: "1 \<le> bitlen q" using q by (simp add: bitlen_alt_def)
    have lo: "(2::rat) ^ nat (bitlen p - 1) \<le> of_int p"
    proof -
      have "(2::int) ^ nat (bitlen p - 1) \<le> p" using bitlen_bounds [OF p] by simp
      then have "(of_int ((2::int) ^ nat (bitlen p - 1)) :: rat) \<le> of_int p"
        by (simp only: of_int_le_iff)
      then show ?thesis by simp
    qed
    have hi: "(of_int q :: rat) \<le> 2 ^ nat (bitlen q)"
    proof -
      have "q \<le> (2::int) ^ nat (bitlen q)" using bitlen_bounds [OF q] by simp
      then have "(of_int q :: rat) \<le> of_int ((2::int) ^ nat (bitlen q))"
        by (simp only: of_int_le_iff)
      then show ?thesis by simp
    qed
    have "(2::rat) powi (?k - 1) = 2 powi ((bitlen p - 1) - bitlen q)"
      by (simp add: algebra_simps)
    also have "\<dots> = 2 powi (bitlen p - 1) / 2 powi (bitlen q)"
      by (rule power_int_diff) simp
    also have "\<dots> = 2 ^ nat (bitlen p - 1) / 2 ^ nat (bitlen q)"
      using bp bq by (simp add: power_int_def)
    also have "\<dots> \<le> of_int p / of_int q"
      using lo hi p q by (intro frac_le) simp_all
    finally have "2 powi (?k - 1) \<le> x" by (simp add: x)
    then show ?thesis using False by (simp add: ilog2_def pq)
  qed
qed

lemma ilog2_upper:
  assumes "0 < x"
  shows "x < 2 powi (ilog2 x + 1)"
proof -
  obtain p q where pq: "quotient_of x = (p, q)" by (cases "quotient_of x")
  have q: "0 < q" using pq by (rule quotient_of_denom_pos)
  have x: "x = of_int p / of_int q" using pq by (rule quotient_of_div)
  have p: "0 < p"
    using assms q unfolding x by (simp add: zero_less_divide_iff)
  let ?k = "bitlen p - bitlen q"
  show ?thesis
  proof (cases "2 powi ?k \<le> x")
    case False
    then show ?thesis by (simp add: ilog2_def pq)
  next
    case True
    have bp: "1 \<le> bitlen p" using p by (simp add: bitlen_alt_def)
    have bq: "1 \<le> bitlen q" using q by (simp add: bitlen_alt_def)
    have hi: "(of_int p :: rat) < 2 ^ nat (bitlen p)"
    proof -
      have "p < (2::int) ^ nat (bitlen p)" using bitlen_bounds [OF p] by simp
      then have "(of_int p :: rat) < of_int ((2::int) ^ nat (bitlen p))"
        by (simp only: of_int_less_iff)
      then show ?thesis by simp
    qed
    have lo: "(2::rat) ^ nat (bitlen q - 1) \<le> of_int q"
    proof -
      have "(2::int) ^ nat (bitlen q - 1) \<le> q" using bitlen_bounds [OF q] by simp
      then have "(of_int ((2::int) ^ nat (bitlen q - 1)) :: rat) \<le> of_int q"
        by (simp only: of_int_le_iff)
      then show ?thesis by simp
    qed
    have "of_int p / of_int q < (2::rat) ^ nat (bitlen p) / 2 ^ nat (bitlen q - 1)"
      using lo hi p by (intro frac_less) simp_all
    also have "\<dots> = 2 powi (bitlen p) / 2 powi (bitlen q - 1)"
      using bp bq by (simp add: power_int_def)
    also have "\<dots> = 2 powi (bitlen p - (bitlen q - 1))"
      by (rule power_int_diff [symmetric]) simp
    also have "\<dots> = 2 powi (?k + 1)"
      by (simp add: algebra_simps)
    finally have "x < 2 powi (?k + 1)" by (simp add: x)
    then show ?thesis using True by (simp add: ilog2_def pq)
  qed
qed

lemma roundHalfEven_le: "y \<le> of_int N \<Longrightarrow> roundHalfEven y \<le> N"
proof -
  assume le: "y \<le> of_int N"
  have "\<lfloor>y\<rfloor> \<le> \<lfloor>of_int N :: rat\<rfloor>" using le by (rule floor_mono)
  then have f: "\<lfloor>y\<rfloor> \<le> N" by simp
  show ?thesis
  proof (cases "y = of_int \<lfloor>y\<rfloor>")
    case True
    then have "y - of_int \<lfloor>y\<rfloor> < 1 / 2" by simp
    then show ?thesis using f by (simp add: roundHalfEven_def Let_def)
  next
    case False
    then have "of_int \<lfloor>y\<rfloor> < y" using of_int_floor_le [of y] by linarith
    then have "(of_int \<lfloor>y\<rfloor> :: rat) < of_int N" using le by linarith
    then have "\<lfloor>y\<rfloor> < N" by (simp only: of_int_less_iff)
    then show ?thesis by (simp add: roundHalfEven_def Let_def)
  qed
qed

lemma roundHalfEven_ge: "of_int N \<le> y \<Longrightarrow> N \<le> roundHalfEven y"
proof -
  assume "of_int N \<le> y"
  then have "N \<le> \<lfloor>y\<rfloor>" by (simp add: le_floor_iff)
  then show ?thesis by (simp add: roundHalfEven_def Let_def)
qed

lemma round64_bounded:
  assumes x0: "0 \<le> x" and xC: "x \<le> of_int C" and C: "C < 2 ^ 53"
  shows "\<exists>y. round64 x = Fin y \<and> 0 \<le> y \<and> y \<le> of_int C"
proof (cases "x = 0")
  case True
  then show ?thesis using x0 xC by (simp add: round64_def)
next
  case False
  then have xp: "0 < x" using x0 by simp
  let ?e = "ilog2 x"
  let ?u = "max (?e - 52) (- 1074)"
  let ?m = "roundHalfEven (x / 2 powi ?u)"
  let ?v = "of_int ?m * (2::rat) powi ?u"
  have "(of_int C :: rat) < of_int (2 ^ 53)" using C by (simp only: of_int_less_iff)
  then have Cr: "(of_int C :: rat) < 2 powi 53" by simp
  have "(2::rat) powi ?e < 2 powi 53"
    using ilog2_lower [OF xp] xC Cr by linarith
  then have e: "?e < 53" by (rule power_int_le_imp_less_exp [rotated]) simp_all
  then have u: "?u \<le> 0" by simp
  define n where "n = nat (- ?u)"
  have pu: "(2::rat) powi ?u = 1 / 2 ^ n"
    using u by (auto simp add: power_int_def n_def inverse_eq_divide power_one_over
                  simp del: max_less_iff_conj)
  have "x / 2 powi ?u = x * 2 ^ n" by (simp add: pu)
  also have "\<dots> \<le> of_int C * 2 ^ n" using xC by simp
  also have "\<dots> = of_int (C * 2 ^ n)" by simp
  finally have mle: "?m \<le> C * 2 ^ n" by (rule roundHalfEven_le)
  have "(of_int 0 :: rat) \<le> x / 2 powi ?u" using xp by simp
  then have mge: "0 \<le> ?m" by (rule roundHalfEven_ge)
  have "(of_int ?m :: rat) \<le> of_int (C * 2 ^ n)" using mle by (simp only: of_int_le_iff)
  then have "(of_int ?m :: rat) \<le> of_int C * 2 ^ n" by simp
  then have vle: "?v \<le> of_int C" by (simp add: pu pos_divide_le_eq)
  have "(of_int 0 :: rat) \<le> of_int ?m" using mge by (simp only: of_int_le_iff)
  then have vge: "0 \<le> ?v" by simp
  have "(2::rat) powi 53 \<le> 2 powi 1024" by (rule power_int_increasing) simp_all
  then have nov: "\<not> ?v \<ge> 2 powi 1024" using vle Cr by linarith
  have "round64 x = Fin ?v"
    using False xp nov by (simp add: round64_def Let_def)
  then show ?thesis using vle vge by blast
qed

lemma ltD_not_geD: "a \<noteq> NaN \<Longrightarrow> b \<noteq> NaN \<Longrightarrow> ltD a b = (\<not> geD a b)"
  by (cases a; cases b) auto

lemma geD_NaN: "\<not> geD a NaN" "\<not> geD NaN b"
  by (cases a; simp) simp

lemma doubleConfidence_range:
  assumes "0 < s" "s \<le> t"
  shows "\<exists>y. doubleConfidence s t = Fin y \<and> 0 \<le> y \<and> y \<le> 100"
proof -
  have t: "0 < t" using assms by simp
  have "0 \<le> (of_nat s :: rat) / of_nat t" by simp
  moreover have "(of_nat s :: rat) / of_nat t \<le> of_int 1"
    using assms t by (simp add: divide_le_eq_1)
  ultimately obtain q where q: "round64 (of_nat s / of_nat t) = Fin q" "0 \<le> q" "q \<le> of_int 1"
    using round64_bounded [of "of_nat s / of_nat t" 1] by auto
  have "0 \<le> q * 100" using q by simp
  moreover have "q * 100 \<le> of_int 100" using q by simp
  ultimately obtain y where y: "round64 (q * 100) = Fin y" "0 \<le> y" "y \<le> of_int 100"
    using round64_bounded [of "q * 100" 100] by auto
  have "doubleConfidence s t = Fin y"
    using t q(1) y(1) by (simp add: doubleConfidence_def ofCount_def)
  then show ?thesis using y by simp
qed

section \<open>The P2WSH detector\<close>

lemma extractWitnessScript_three:
  "length items \<ge> 3 \<Longrightarrow> extractWitnessScript (Some items) = Some (last items)"
  by (cases "items = []") (simp_all add: extractWitnessScript_def last_conv_nth)

lemma scanInputs_spec:
  "scanInputs ins s t d =
     (s + length (suspiciousOf ins),
      t + length (filter hasThreeItems ins),
      d @ map (\<lambda>input. (txid input, vout input, analyzeWitnessScript (lastWitnessItem input)))
            (suspiciousOf ins))"
proof (induction ins arbitrary: s t d)
  case Nil
  then show ?case by (simp add: suspiciousOf_def)
next
  case (Cons input rest)
  show ?case
  proof (cases "witness input")
    case None
    then show ?thesis
      by (simp add: Cons.IH suspiciousOf_def hasThreeItems_def)
  next
    case (Some items)
    show ?thesis
    proof (cases "length items < 3")
      case True
      then show ?thesis
        using Some by (simp add: Cons.IH suspiciousOf_def hasThreeItems_def)
    next
      case False
      then have three: "length items \<ge> 3" by simp
      then have ne: "items \<noteq> []" by auto
      have lw: "lastWitnessItem input = last items"
        using Some ne by (simp add: lastWitnessItem_def)
      show ?thesis
        using Some three ne
        by (simp add: Cons.IH suspiciousOf_def hasThreeItems_def lw
              extractWitnessScript_three Let_def)
    qed
  qed
qed

lemma suspiciousOf_le: "length (suspiciousOf ins) \<le> length (filter hasThreeItems ins)"
  unfolding suspiciousOf_def by (rule length_filter_le)

lemma P2WSH_detect_spec:
  "P2WSH_detect tx =
     (if length (suspiciousInputs tx) = 0 then
        \<lparr> detected = False, confidence = Fin 0, reason = NoSuspiciousP2WSH, details = None \<rparr>
      else
        \<lparr> detected = True,
          confidence = doubleConfidence (length (suspiciousInputs tx))
                         (length (countedInputs tx)),
          reason = DetectedP2WSH (length (suspiciousInputs tx)),
          details = Some (P2WSHDetails
            (map (\<lambda>input. (txid input, vout input, analyzeWitnessScript (lastWitnessItem input)))
               (suspiciousInputs tx))) \<rparr>)"
proof -
  have s: "suspiciousInputs tx = suspiciousOf (inputs tx)"
    by (simp add: suspiciousInputs_def countedInputs_def suspiciousOf_def)
  have "length (suspiciousOf (inputs tx)) \<noteq> 0 \<Longrightarrow> length (filter hasThreeItems (inputs tx)) > 0"
    using suspiciousOf_le [of "inputs tx"] by linarith
  then show ?thesis
    by (simp add: P2WSH_detect_def scanInputs_spec s countedInputs_def doubleConfidence_def)
qed

lemma suspicious_le_counted: "length (suspiciousInputs tx) \<le> length (countedInputs tx)"
  unfolding suspiciousInputs_def by (rule length_filter_le)

lemma P2WSH_confidence_range:
  "geD (confidence (P2WSH_detect tx)) (Fin 0) \<and> geD (Fin 100) (confidence (P2WSH_detect tx))"
proof (cases "length (suspiciousInputs tx) = 0")
  case True
  then show ?thesis by (simp add: P2WSH_detect_spec)
next
  case False
  then have "0 < length (suspiciousInputs tx)" by simp
  then obtain y where
    "doubleConfidence (length (suspiciousInputs tx)) (length (countedInputs tx)) = Fin y"
    "0 \<le> y" "y \<le> 100"
    using doubleConfidence_range [OF _ suspicious_le_counted [of tx]] by blast
  then show ?thesis using False by (simp add: P2WSH_detect_spec)
qed

lemma OpReturn_confidence_range:
  "geD (confidence (OpReturn_detect tx)) (Fin 0) \<and>
   geD (Fin 100) (confidence (OpReturn_detect tx))"
proof (cases "opReturnOutputs tx = []")
  case True
  then show ?thesis by (simp add: OpReturn_detect_def)
next
  case False
  then show ?thesis by (simp add: detect_cases Let_def)
qed



section \<open>The filter engine\<close>

lemma runFilters_spec:
  "map (\<lambda>f. f tx) fs = map Inr rs \<Longrightarrow>
   runFilters fs tx dets acc =
     Inr (dets @ map wrapCallback (filter (\<lambda>r. \<not> accept r) rs),
          foldl addD acc (map score (filter (\<lambda>r. \<not> accept r) rs)))"
proof (induction fs arbitrary: rs dets acc)
  case Nil
  then show ?case by simp
next
  case (Cons f fs)
  then obtain r rs' where rs: "rs = r # rs'" "f tx = Inr r" "map (\<lambda>f. f tx) fs = map Inr rs'"
    by (cases rs) auto
  show ?case
    using Cons.IH [OF rs(3)] rs by (simp add: wrapCallback_def)
qed

lemma runFilters_throw:
  "map (\<lambda>f. f tx) fs = map Inr rs \<Longrightarrow> g tx = Inl ex \<Longrightarrow>
   runFilters (fs @ g # hs) tx dets acc = Inl ex"
proof (induction fs arbitrary: rs dets acc)
  case Nil
  then show ?case by simp
next
  case (Cons f fs)
  then obtain r rs' where rs: "rs = r # rs'" "f tx = Inr r" "map (\<lambda>f. f tx) fs = map Inr rs'"
    by (cases rs) auto
  show ?case
    using Cons.IH [OF rs(3) Cons.prems(2)] rs by simp
qed

lemma evaluate_spec:
  assumes "map (\<lambda>f. f tx) (jsFilters e) = map Inr rs"
  shows "evaluateTransaction e tx =
     Inr \<lparr> accept = (\<not> geD (spec_totalScore (config e) rs tx) (threshold (config e))),
           score = spec_totalScore (config e) rs tx,
           detections = builtinDetections (config e) tx @
                        map wrapCallback (filter (\<lambda>r. \<not> accept r) rs),
           message =
             (if geD (spec_totalScore (config e) rs tx) (threshold (config e))
              then Rejected (spec_totalScore (config e) rs tx) (threshold (config e))
              else Accepted (spec_totalScore (config e) rs tx) (threshold (config e))) \<rparr>"
  by (simp add: evaluateTransaction_def runFilters_spec [OF assms] spec_totalScore_def
        builtinDetections_def Let_def)

section \<open>The claims about the P2WSH confidence and the engine\<close>



lemma eval_conf_29_50: "doubleConfidence 29 50 = Fin (8162774324609023 / 140737488355328)"
  by code_simp

lemma eval_round_95: "round64 95 = Fin 95"
  by code_simp

lemma eval_round_245: "round64 245 = Fin 245"
  by code_simp

lemma eval_round_150: "round64 150 = Fin 150"
  by code_simp

lemma eval_round_58:
  "round64 (8162774324609023 / 140737488355328) = Fin (8162774324609023 / 140737488355328)"
  by code_simp


lemma eval_small_scripts:
  "\<not> isSuspicious (analyzeWitnessScript [0x00]) \<and>
   \<not> isSuspicious (analyzeWitnessScript [0x51, 0xae])"
  by code_simp

lemma shaped_spam: "spamScript \<noteq> [] \<and> last spamScript = 0xae"
  by (simp add: spamScript_def)

lemma eval_inputs:
  "hasThreeItems spamInput \<and> lastWitnessItem spamInput = spamScript \<and>
   hasThreeItems cleanInput \<and> lastWitnessItem cleanInput = [0x51, 0xae] \<and>
   hasThreeItems (mkInput (Some [[0x00], [0x00], [0x00]])) \<and>
   lastWitnessItem (mkInput (Some [[0x00], [0x00], [0x00]])) = [0x00]"
  by (simp add: spamInput_def cleanInput_def mkInput_def hasThreeItems_def lastWitnessItem_def)



lemma eval_fifty_counts:
  "length (suspiciousInputs fiftyInputTx) = 29 \<and> length (countedInputs fiftyInputTx) = 50"
  using eval_small_scripts shaped_spam eval_inputs
  by (simp add: suspiciousInputs_def countedInputs_def fiftyInputTx_def mkTx_def eval_spam)



lemma eval_plain_detectors:
  "\<not> detected (P2WSH_detect plainTx) \<and> \<not> detected (OpReturn_detect plainTx)"
  by (simp add: P2WSH_detect_def OpReturn_detect_def opReturnOutputs_def plainTx_def mkTx_def
        mkInput_def mkOutput_def)

lemma eval_magic_p2wsh: "\<not> detected (P2WSH_detect magicTx)"
  by (simp add: P2WSH_detect_def magicTx_def mkTx_def mkInput_def)

lemma eval_magic_opreturn:
  "detected (OpReturn_detect magicTx) \<and> confidence (OpReturn_detect magicTx) = Fin 95"
proof -
  have "opReturnOutputs magicTx \<noteq> []" and "spec_hasMagicPrefix magicTx"
    using eval_magicTx by simp_all
  then show ?thesis by (simp add: detect_cases)
qed

lemma eval_fifty_detectors:
  "detected (P2WSH_detect fiftyInputTx) \<and>
   confidence (P2WSH_detect fiftyInputTx) = Fin (8162774324609023 / 140737488355328) \<and>
   \<not> detected (OpReturn_detect fiftyInputTx)"
proof -
  have "\<not> detected (OpReturn_detect fiftyInputTx)"
    by (simp add: OpReturn_detect_def opReturnOutputs_def fiftyInputTx_def mkTx_def
          mkOutput_def)
  then show ?thesis
    using eval_fifty_counts by (simp add: P2WSH_detect_spec eval_conf_29_50)
qed

lemma eval_twoFilterEngine:
  "config twoFilterEngine = testConfig \<and>
   map (\<lambda>f. f magicTx) (jsFilters twoFilterEngine) =
     map Inr [\<lparr> accept = True, score = Fin 0, detections = [],
                 message = Text ''Normal witness data'' \<rparr>,
              \<lparr> accept = False, score = Fin 150, detections = [], message = Text ''over'' \<rparr>]"
  by (simp add: twoFilterEngine_def addJSFilter_def newFilterEngine_def highWitnessFilter_def
        overScoringFilter_def magicTx_def mkTx_def mkInput_def Let_def)

lemma eval_highWitnessEngine:
  "config highWitnessEngine = testConfig \<and>
   map (\<lambda>f. f manyWitnessTx) (jsFilters highWitnessEngine) =
     map Inr [\<lparr> accept = False, score = Fin 60, detections = [],
                 message = HighWitness 1 \<rparr>]"
  by (simp add: highWitnessEngine_def addJSFilter_def newFilterEngine_def highWitnessFilter_def
        manyWitnessTx_def mkTx_def mkInput_def Let_def)

lemma eval_many_detectors:
  "\<not> detected (P2WSH_detect manyWitnessTx) \<and> \<not> detected (OpReturn_detect manyWitnessTx)"
proof -
  have "\<not> isSuspicious (analyzeWitnessScript [0x00])"
    using eval_small_scripts by simp
  then show ?thesis
    by (simp add: P2WSH_detect_def OpReturn_detect_def opReturnOutputs_def manyWitnessTx_def
          mkTx_def mkInput_def mkOutput_def extractWitnessScript_def Let_def)
qed

lemma builtin_range:
  "\<forall>d \<in> set (builtinDetections cfg tx).
     geD (confidence d) (Fin 0) \<and> geD (Fin 100) (confidence d)"
  using P2WSH_confidence_range [of tx] OpReturn_confidence_range [of tx]
  by (auto simp add: builtinDetections_def)




text \<open>
  Claim C1 says that \<open>accept\<close> is \<open>totalScore < threshold\<close> for every configuration.
  With the threshold \<open>NaN\<close> the magic-prefix transaction scores 95 and is accepted,
  while \<open>95 < NaN\<close> is false: the source computes \<open>!(totalScore >= threshold)\<close>.
\<close>

theorem nan_threshold_accepts:
  "evaluateTransaction nanEngine magicTx =
     Inr \<lparr> accept = True, score = Fin 95, detections = [OpReturn_detect magicTx],
           message = Accepted (Fin 95) NaN \<rparr> \<and>
   \<not> ltD (Fin 95) NaN"
proof -
  have m: "map (\<lambda>f. f magicTx) (jsFilters nanEngine) = map Inr []"
    by (simp add: nanEngine_def newFilterEngine_def)
  have c: "config nanEngine = nanConfig"
    by (simp add: nanEngine_def newFilterEngine_def)
  have b: "builtinDetections nanConfig magicTx = [OpReturn_detect magicTx]"
    using eval_magic_p2wsh eval_magic_opreturn
    by (simp add: builtinDetections_def nanConfig_def testConfig_def)
  have s: "spec_totalScore nanConfig [] magicTx = Fin 95"
    using eval_magic_opreturn by (simp add: spec_totalScore_def b eval_round_95)
  have t: "threshold nanConfig = NaN"
    by (simp add: nanConfig_def)
  show ?thesis
    by (simp add: evaluate_spec [OF m] c b s t)
qed

text \<open>
  Claim C1 as amended.  When every registered filter returns, \<open>evaluateTransaction\<close>
  returns a verdict whose \<open>score\<close> is the sum in doubles, taken from 0 in the order of
  invocation, of the confidences of the enabled detectors that detected and of the scores
  of the filter results that do not accept (a disabled detector, a detector that did not
  detect and an accepting filter add nothing), and whose \<open>accept\<close> is the negation of
  \<open>score >= threshold\<close>: that is \<open>score < threshold\<close> when neither is \<open>NaN\<close>, and
  true when either is.
\<close>

theorem engine_accept_rule:
  assumes "map (\<lambda>f. f tx) (jsFilters e) = map Inr rs"
  shows "\<exists>v. evaluateTransaction e tx = Inr v \<and>
             score v = spec_totalScore (config e) rs tx \<and>
             accept v = (\<not> geD (score v) (threshold (config e))) \<and>
             (score v \<noteq> NaN \<and> threshold (config e) \<noteq> NaN \<longrightarrow>
                accept v = ltD (score v) (threshold (config e))) \<and>
             (score v = NaN \<or> threshold (config e) = NaN \<longrightarrow> accept v)"
proof -
  let ?total = "spec_totalScore (config e) rs tx"
  let ?th = "threshold (config e)"
  let ?v = "\<lparr> accept = (\<not> geD ?total ?th), score = ?total,
              detections = builtinDetections (config e) tx @
                           map wrapCallback (filter (\<lambda>r. \<not> accept r) rs),
              message = (if geD ?total ?th then Rejected ?total ?th
                         else Accepted ?total ?th) \<rparr>"
  have ev: "evaluateTransaction e tx = Inr ?v"
    by (rule evaluate_spec [OF assms])
  have "accept ?v = ltD (score ?v) ?th" if "score ?v \<noteq> NaN \<and> ?th \<noteq> NaN"
    using that by (simp add: ltD_not_geD)
  moreover have "accept ?v" if "score ?v = NaN \<or> ?th = NaN"
    using that geD_NaN by auto
  ultimately show ?thesis
    using ev by (intro exI [of _ ?v]) simp
qed

text \<open>
  The theorem at the magic-prefix transaction and an engine with two filters, one that
  accepts and one that rejects with score 150 (the score is 245, rejected); at the
  transaction with 29 suspicious inputs of 50 and the threshold 58 (the score is
  \<open>57.99999999999999\<close>, accepted); and at the threshold \<open>NaN\<close> (accepted).
\<close>

theorem engine_accept_rule_witness:
  "map (\<lambda>f. f magicTx) (jsFilters twoFilterEngine) =
     map Inr [\<lparr> accept = True, score = Fin 0, detections = [],
                 message = Text ''Normal witness data'' \<rparr>,
              \<lparr> accept = False, score = Fin 150, detections = [], message = Text ''over'' \<rparr>] \<and>
   (\<exists>v. evaluateTransaction twoFilterEngine magicTx = Inr v \<and> \<not> accept v \<and>
        score v = Fin 245) \<and>
   map (\<lambda>f. f fiftyInputTx) (jsFilters engine58) = map Inr [] \<and>
   (\<exists>v. evaluateTransaction engine58 fiftyInputTx = Inr v \<and> accept v \<and>
        score v = Fin (8162774324609023 / 140737488355328)) \<and>
   map (\<lambda>f. f magicTx) (jsFilters nanEngine) = map Inr [] \<and>
   (\<exists>v. evaluateTransaction nanEngine magicTx = Inr v \<and> accept v \<and> score v = Fin 95)"
proof -
  let ?rs = "[\<lparr> accept = True, score = Fin 0, detections = [],
                 message = Text ''Normal witness data'' \<rparr>,
              \<lparr> accept = False, score = Fin 150, detections = [], message = Text ''over'' \<rparr>]"
  have m: "map (\<lambda>f. f magicTx) (jsFilters twoFilterEngine) = map Inr ?rs"
    using eval_twoFilterEngine by simp
  have s: "spec_totalScore (config twoFilterEngine) ?rs magicTx = Fin 245"
    using eval_twoFilterEngine eval_magic_p2wsh eval_magic_opreturn
    by (simp add: spec_totalScore_def builtinDetections_def testConfig_def
          eval_round_95 eval_round_245)
  have t: "threshold (config twoFilterEngine) = Fin 80"
    using eval_twoFilterEngine by (simp add: testConfig_def)
  have m2: "map (\<lambda>f. f fiftyInputTx) (jsFilters engine58) = map Inr []"
    by (simp add: engine58_def newFilterEngine_def)
  have c2: "config engine58 = config58"
    by (simp add: engine58_def newFilterEngine_def)
  have s2: "spec_totalScore config58 [] fiftyInputTx =
              Fin (8162774324609023 / 140737488355328)"
    using eval_fifty_detectors
    by (simp add: spec_totalScore_def builtinDetections_def config58_def testConfig_def
          eval_round_58)
  have t2: "threshold config58 = Fin 58"
    by (simp add: config58_def)
  have m3: "map (\<lambda>f. f magicTx) (jsFilters nanEngine) = map Inr []"
    by (simp add: nanEngine_def newFilterEngine_def)
  have c3: "config nanEngine = nanConfig"
    by (simp add: nanEngine_def newFilterEngine_def)
  have s3: "spec_totalScore nanConfig [] magicTx = Fin 95"
    using eval_magic_p2wsh eval_magic_opreturn
    by (simp add: spec_totalScore_def builtinDetections_def nanConfig_def testConfig_def
          eval_round_95)
  have t3: "threshold nanConfig = NaN"
    by (simp add: nanConfig_def)
  show ?thesis
    using engine_accept_rule [OF m] engine_accept_rule [OF m2] engine_accept_rule [OF m3]
      m m2 m3
    by (auto simp add: s t c2 s2 t2 c3 s3 t3)
qed

text \<open>
  Claim C7 says that a filter that throws is caught and the evaluation goes on.  The model
  of the source at an engine whose first filter throws: the exception is the result of
  \<open>evaluateTransaction\<close>, no verdict is returned and the second filter is not run.
\<close>

theorem throwing_filter_aborts:
  "evaluateTransaction throwingEngine magicTx = Inl (Exception ''boom'')"
proof -
  have fs: "jsFilters throwingEngine = [] @ throwingFilter # [highWitnessFilter]"
    by (simp add: throwingEngine_def addJSFilter_def newFilterEngine_def)
  have thrown: "throwingFilter magicTx = Inl (Exception ''boom'')"
    by (simp add: throwingFilter_def)
  have "runFilters (jsFilters throwingEngine) magicTx dets acc = Inl (Exception ''boom'')"
    for dets acc
    unfolding fs by (rule runFilters_throw [where rs = "[]"]) (simp_all add: thrown)
  then show ?thesis
    by (simp add: evaluateTransaction_def Let_def split: prod.splits)
qed

text \<open>
  Claim C9 says that every detection of a verdict has a confidence in \<open>[0, 100]\<close>, also
  the one wrapped around a filter result.  A filter that rejects with score 150 gives a
  detection of confidence 150.
\<close>

theorem callback_confidence_unbounded:
  "evaluateTransaction overScoringEngine plainTx =
     Inr \<lparr> accept = False, score = Fin 150,
           detections = [\<lparr> detected = True, confidence = Fin 150,
                            reason = CallbackMessage (Text ''over''), details = None \<rparr>],
           message = Rejected (Fin 150) (Fin 80) \<rparr> \<and>
   \<not> geD (Fin 100) (Fin 150)"
proof -
  have m: "map (\<lambda>f. f plainTx) (jsFilters overScoringEngine) =
      map Inr [\<lparr> accept = False, score = Fin 150, detections = [], message = Text ''over'' \<rparr>]"
    by (simp add: overScoringEngine_def addJSFilter_def newFilterEngine_def
          overScoringFilter_def)
  have c: "config overScoringEngine = testConfig"
    by (simp add: overScoringEngine_def addJSFilter_def newFilterEngine_def)
  show ?thesis
    using eval_plain_detectors
    by (simp add: evaluate_spec [OF m] c spec_totalScore_def builtinDetections_def
          wrapCallback_def testConfig_def eval_round_150)
qed

text \<open>
  Claim C9 as amended.  When every registered filter returns, the detections of the
  verdict are those of the enabled detectors that detected, each with a confidence in
  \<open>[0, 100]\<close>, followed by one detection for each filter result that does not accept,
  whose confidence is the score of that result, whatever it is; so all confidences are in
  \<open>[0, 100]\<close> if the scores of the non-accepting filter results are.
\<close>

theorem detection_confidences:
  assumes "map (\<lambda>f. f tx) (jsFilters e) = map Inr rs"
  shows "\<exists>v. evaluateTransaction e tx = Inr v \<and>
           detections v = builtinDetections (config e) tx @
                          map wrapCallback (filter (\<lambda>r. \<not> accept r) rs) \<and>
           (\<forall>d \<in> set (builtinDetections (config e) tx).
              geD (confidence d) (Fin 0) \<and> geD (Fin 100) (confidence d)) \<and>
           (\<forall>r \<in> set rs. confidence (wrapCallback r) = score r) \<and>
           ((\<forall>r \<in> set rs. \<not> accept r \<longrightarrow>
                geD (score r) (Fin 0) \<and> geD (Fin 100) (score r)) \<longrightarrow>
            (\<forall>d \<in> set (detections v).
                geD (confidence d) (Fin 0) \<and> geD (Fin 100) (confidence d)))"
proof -
  have w: "confidence (wrapCallback r) = score r" for r
    by (simp add: wrapCallback_def)
  show ?thesis
    using builtin_range [of "config e" tx]
    by (auto simp add: evaluate_spec [OF assms] w)
qed

text \<open>
  The theorem at the high-witness filter of the examples and a transaction with a witness
  stack of eleven items: the one detection has the filter's score 60.
\<close>

theorem detection_confidences_witness:
  "map (\<lambda>f. f manyWitnessTx) (jsFilters highWitnessEngine) =
     map Inr [\<lparr> accept = False, score = Fin 60, detections = [],
                 message = HighWitness 1 \<rparr>] \<and>
   geD (Fin 60) (Fin 0) \<and> geD (Fin 100) (Fin 60) \<and>
   (\<exists>v. evaluateTransaction highWitnessEngine manyWitnessTx = Inr v \<and>
        detections v = [\<lparr> detected = True, confidence = Fin 60,
                           reason = CallbackMessage (HighWitness 1),
                           details = None \<rparr>] \<and>
        list_all (\<lambda>d. geD (confidence d) (Fin 0) \<and> geD (Fin 100) (confidence d))
          (detections v))"
proof -
  let ?rs = "[\<lparr> accept = False, score = Fin 60, detections = [],
                 message = HighWitness 1 \<rparr>]"
  have m: "map (\<lambda>f. f manyWitnessTx) (jsFilters highWitnessEngine) = map Inr ?rs"
    using eval_highWitnessEngine by simp
  have b: "builtinDetections (config highWitnessEngine) manyWitnessTx = []"
    using eval_many_detectors by (simp add: builtinDetections_def)
  show ?thesis
    using detection_confidences [OF m] m
    by (auto simp add: b wrapCallback_def)
qed

end
